theory Spec2Isabelle
  imports Complex_Main "HOL-Library.Multiset"
begin

section \<open>Python strings\<close>

text \<open>
  A Python string is modelled as a \<open>string\<close>: ASCII text as itself, other text in some
  fixed encoding. The functions of this section are the ASCII part of Python's text
  functions: on text whose code points are all below 128, \<open>str.lower\<close> maps \<open>A\<close>..\<open>Z\<close> to
  \<open>a\<close>..\<open>z\<close>; the whitespace of \<open>\<^verbatim>\<open>\s\<close>\<close> and of \<open>str.split()\<close> is the code points
  9..13, 28..31 and 32; the word characters of \<open>\<^verbatim>\<open>\w\<close>\<close> are letters, digits and the
  underscore. The downloader uses them directly (identifiers, paths and header values);
  the deduplication, which works on titles in any script, takes Python's text functions
  as a parameter instead (\<open>py_str\<close> below).
\<close>

definition lower_char :: "char \<Rightarrow> char" where
  "lower_char c =
     (let n = (of_char c :: nat) in if 65 \<le> n \<and> n \<le> 90 then char_of (n + 32) else c)"

definition str_lower :: "string \<Rightarrow> string" where
  "str_lower s = map lower_char s"

definition is_space :: "char \<Rightarrow> bool" where
  "is_space c = (let n = (of_char c :: nat) in (9 \<le> n \<and> n \<le> 13) \<or> (28 \<le> n \<and> n \<le> 32))"

definition is_word_char :: "char \<Rightarrow> bool" where
  "is_word_char c =
     (let n = (of_char c :: nat)
      in (48 \<le> n \<and> n \<le> 57) \<or> (65 \<le> n \<and> n \<le> 90) \<or> (97 \<le> n \<and> n \<le> 122) \<or> n = 95)"

text \<open>\<open>sub in s\<close>: \<open>sub\<close> occurs in \<open>s\<close> as a contiguous substring.\<close>

fun str_contains :: "string \<Rightarrow> string \<Rightarrow> bool" where
  "str_contains sub [] = (sub = [])"
| "str_contains sub (c # cs) = (take (length sub) (c # cs) = sub \<or> str_contains sub cs)"

definition endswith :: "string \<Rightarrow> string \<Rightarrow> bool" where
  "endswith s suffix =
     (length suffix \<le> length s \<and> drop (length s - length suffix) s = suffix)"

text \<open>\<open>s.split()\<close>: the maximal runs of non-whitespace characters, in order.\<close>

fun split_ws_acc :: "string \<Rightarrow> string \<Rightarrow> string list" where
  "split_ws_acc cur [] = (if cur = [] then [] else [cur])"
| "split_ws_acc cur (c # cs) =
     (if is_space c then (if cur = [] then split_ws_acc [] cs else cur # split_ws_acc [] cs)
      else split_ws_acc (cur @ [c]) cs)"

definition split_ws :: "string \<Rightarrow> string list" where
  "split_ws s = split_ws_acc [] s"

text \<open>\<open>sep.join(parts)\<close>.\<close>

fun join :: "string \<Rightarrow> string list \<Rightarrow> string" where
  "join sep [] = []"
| "join sep [p] = p"
| "join sep (p # q # ps) = p @ sep @ join sep (q # ps)"

text \<open>\<open>s.split("/")[-1]\<close>: what follows the last slash (all of \<open>s\<close> when there is none).\<close>

definition last_segment :: "string \<Rightarrow> string" where
  "last_segment s = rev (takeWhile (\<lambda>c. c \<noteq> CHR ''/'') (rev s))"

text \<open>
  \<open>re.sub(r"\<^verbatim>\<open>\s\<close>+", "_", name)\<close>: every maximal run of whitespace becomes one underscore.
  The flag says whether the previous character was whitespace.
\<close>

fun sub_ws_runs :: "bool \<Rightarrow> string \<Rightarrow> string" where
  "sub_ws_runs in_run [] = []"
| "sub_ws_runs in_run (c # cs) =
     (if is_space c then (if in_run then sub_ws_runs True cs else CHR ''_'' # sub_ws_runs True cs)
      else c # sub_ws_runs False cs)"

text \<open>Truth value of an optional string field: a missing key and the empty string are false.\<close>

fun truthy :: "string option \<Rightarrow> bool" where
  "truthy None = False"
| "truthy (Some s) = (s \<noteq> [])"


section \<open>Raw records\<close>

text \<open>
  A raw record is a JSON object; the fields below are the ones the pipeline reads.
  \<open>None\<close> is a missing key. \<open>externalIds_DOI\<close> is \<open>paper["externalIds"]["DOI"]\<close>
  (\<open>None\<close> when either level is missing or empty). \<open>openAccessPdf\<close> is either an
  object, of which only \<open>url\<close> is read, or a plain string.
\<close>

datatype open_access = OaDict "string option" | OaStr string

record paper =
  doi :: "string option"
  externalIds_DOI :: "string option"
  title :: "string option"
  arxiv_id :: "string option"
  post_id :: "string option"
  paperId :: "string option"
  pdf_url :: "string option"
  openAccessPdf :: "open_access option"
  source :: "string option"


section \<open>dedup\_papers.py\<close>

text \<open>
  \<open>str.lower\<close>, the substitution \<open>re.sub(r"[^\<^verbatim>\<open>\w\s\<close>]", " ", title)\<close> and \<open>str.split()\<close> follow
  Python's Unicode tables, which are not part of the repository: the three functions
  are a parameter of the deduplication. \<open>ascii_str\<close> is what they do on ASCII text; the
  concrete runs below use it, on ASCII records.
\<close>

record py_str =
  py_lower :: "string \<Rightarrow> string"
  py_sub_punct :: "string \<Rightarrow> string"
  py_split :: "string \<Rightarrow> string list"

definition ascii_str :: py_str where
  "ascii_str =
     \<lparr>py_lower = str_lower,
      py_sub_punct = map (\<lambda>c. if is_word_char c \<or> is_space c then c else CHR '' ''),
      py_split = split_ws\<rparr>"

definition normalize_title :: "py_str \<Rightarrow> string \<Rightarrow> string" where
  "normalize_title py t =
     (if t = [] then []
      else join '' '' (py_split py (py_sub_punct py (py_lower py t))))"

definition get_doi :: "py_str \<Rightarrow> paper \<Rightarrow> string option" where
  "get_doi py p =
     (if truthy (doi p) then map_option (py_lower py) (doi p)
      else if truthy (externalIds_DOI p) then map_option (py_lower py) (externalIds_DOI p)
      else None)"

definition get_title :: "paper \<Rightarrow> string" where
  "get_title p = (case title p of None \<Rightarrow> [] | Some t \<Rightarrow> t)"

text \<open>
  \<open>fuzz.token_sort_ratio\<close> belongs to the rapidfuzz library and is a parameter of the
  model: a function from two strings to a score (0 to 100). Scores and the threshold are
  rationals.
\<close>

type_synonym scorer = "string \<Rightarrow> string \<Rightarrow> rat"

record dedup_state =
  seen_dois :: "string set"
  seen_titles :: "string list"
  deduplicated :: "paper list"
  duplicates_removed :: nat

text \<open>The inner loop over \<open>seen_titles\<close>, with its \<open>break\<close> at the first hit.\<close>

fun is_duplicate :: "scorer \<Rightarrow> rat \<Rightarrow> string \<Rightarrow> string list \<Rightarrow> bool" where
  "is_duplicate ratio threshold normalized [] = False"
| "is_duplicate ratio threshold normalized (seen_title # rest) =
     (if ratio normalized seen_title / 100 \<ge> threshold then True
      else is_duplicate ratio threshold normalized rest)"

text \<open>The second half of the loop body: the fuzzy title check and the append.\<close>

definition check_title :: "py_str \<Rightarrow> scorer \<Rightarrow> rat \<Rightarrow> dedup_state \<Rightarrow> paper \<Rightarrow> dedup_state" where
  "check_title py ratio threshold s p =
     (let t = get_title p; normalized = normalize_title py t in
      if t \<noteq> [] \<and> normalized \<noteq> [] then
        (if is_duplicate ratio threshold normalized (seen_titles s)
         then s\<lparr>duplicates_removed := duplicates_removed s + 1\<rparr>
         else s\<lparr>seen_titles := seen_titles s @ [normalized],
                deduplicated := deduplicated s @ [p]\<rparr>)
      else s\<lparr>deduplicated := deduplicated s @ [p]\<rparr>)"

text \<open>One iteration of \<open>for paper in papers\<close>.\<close>

definition dedup_step :: "py_str \<Rightarrow> scorer \<Rightarrow> rat \<Rightarrow> dedup_state \<Rightarrow> paper \<Rightarrow> dedup_state" where
  "dedup_step py ratio threshold s p =
     (case get_doi py p of
        None \<Rightarrow> check_title py ratio threshold s p
      | Some d \<Rightarrow>
          if d = [] then check_title py ratio threshold s p
          else if d \<in> seen_dois s then s\<lparr>duplicates_removed := duplicates_removed s + 1\<rparr>
          else check_title py ratio threshold (s\<lparr>seen_dois := insert d (seen_dois s)\<rparr>) p)"

definition dedup_init :: dedup_state where
  "dedup_init = \<lparr>seen_dois = {}, seen_titles = [], deduplicated = [], duplicates_removed = 0\<rparr>"

definition deduplicate_papers :: "py_str \<Rightarrow> scorer \<Rightarrow> paper list \<Rightarrow> rat \<Rightarrow> paper list" where
  "deduplicate_papers py ratio papers threshold =
     deduplicated (foldl (dedup_step py ratio threshold) dedup_init papers)"

subsection \<open>The loop, seen through what it keeps\<close>

text \<open>
  \<open>doi_seen\<close> is the test of the first \<open>continue\<close>, \<open>title_seen\<close> that of the second;
  \<open>keeps\<close> says that the iteration reaches \<open>deduplicated.append(paper)\<close>, and
  \<open>retained\<close> lists the records a run from state \<open>s\<close> appends.
\<close>

definition doi_seen :: "py_str \<Rightarrow> dedup_state \<Rightarrow> paper \<Rightarrow> bool" where
  "doi_seen py s p = (case get_doi py p of None \<Rightarrow> False | Some d \<Rightarrow> d \<noteq> [] \<and> d \<in> seen_dois s)"

definition title_seen :: "py_str \<Rightarrow> scorer \<Rightarrow> rat \<Rightarrow> dedup_state \<Rightarrow> paper \<Rightarrow> bool" where
  "title_seen py ratio threshold s p =
     (get_title p \<noteq> [] \<and> normalize_title py (get_title p) \<noteq> [] \<and>
      is_duplicate ratio threshold (normalize_title py (get_title p)) (seen_titles s))"

definition keeps :: "py_str \<Rightarrow> scorer \<Rightarrow> rat \<Rightarrow> dedup_state \<Rightarrow> paper \<Rightarrow> bool" where
  "keeps py ratio threshold s p = (\<not> doi_seen py s p \<and> \<not> title_seen py ratio threshold s p)"

fun retained :: "py_str \<Rightarrow> scorer \<Rightarrow> rat \<Rightarrow> dedup_state \<Rightarrow> paper list \<Rightarrow> paper list" where
  "retained py ratio threshold s [] = []"
| "retained py ratio threshold s (p # ps) =
     (if keeps py ratio threshold s p
      then p # retained py ratio threshold (dedup_step py ratio threshold s p) ps
      else retained py ratio threshold (dedup_step py ratio threshold s p) ps)"

subsection \<open>Identity of records\<close>

text \<open>
  The normalized title of a record, and the two ways in which records count as the same
  work: by DOI (compared in lower case) and by similarity of the normalized titles.
\<close>

definition norm_title :: "py_str \<Rightarrow> paper \<Rightarrow> string" where
  "norm_title py p = normalize_title py (get_title p)"

definition doi_match :: "py_str \<Rightarrow> paper \<Rightarrow> paper \<Rightarrow> bool" where
  "doi_match py a b = (truthy (get_doi py a) \<and> get_doi py a = get_doi py b)"

definition title_match :: "py_str \<Rightarrow> scorer \<Rightarrow> rat \<Rightarrow> paper \<Rightarrow> paper \<Rightarrow> bool" where
  "title_match py ratio threshold a b = (ratio (norm_title py a) (norm_title py b) / 100 \<ge> threshold)"

definition identity_equivalent :: "py_str \<Rightarrow> scorer \<Rightarrow> rat \<Rightarrow> paper \<Rightarrow> paper \<Rightarrow> bool" where
  "identity_equivalent py ratio threshold a b =
     (doi_match py a b \<or> title_match py ratio threshold a b)"

text \<open>
  A scorer for concrete runs: 100 for two equal strings, 0 otherwise. Any similarity
  score gives 100 to equal strings, so a run that only compares equal strings, or only
  needs a score to stay below 100, behaves with it as with the library's scorer.
\<close>

definition exact_ratio :: scorer where
  "exact_ratio a b = (if a = b then 100 else 0)"

text \<open>A record with every field missing, to build concrete records from.\<close>

definition empty_paper :: paper where
  "empty_paper =
     \<lparr>doi = None, externalIds_DOI = None, title = None, arxiv_id = None, post_id = None,
      paperId = None, pdf_url = None, openAccessPdf = None, source = None\<rparr>"

text \<open>
  Two retained records are \<open>apart\<close> when their DOIs do not match and, if both have a
  non-empty normalized title, the later one (\<open>b\<close>) scores below the threshold against the
  earlier one (\<open>a\<close>).
\<close>

definition apart :: "py_str \<Rightarrow> scorer \<Rightarrow> rat \<Rightarrow> paper \<Rightarrow> paper \<Rightarrow> bool" where
  "apart py ratio thr a b =
     (\<not> doi_match py a b \<and>
      (norm_title py a \<noteq> [] \<and> norm_title py b \<noteq> [] \<longrightarrow> ratio (norm_title py b) (norm_title py a) / 100 < thr))"

text \<open>A scorer that gives every pair of strings the same score.\<close>

definition fixed_ratio :: "rat \<Rightarrow> scorer" where
  "fixed_ratio r a b = r"

subsection \<open>Concrete records\<close>

definition paper_foo_bar :: paper where
  "paper_foo_bar = empty_paper\<lparr>doi := Some ''10.1/a'', title := Some ''Foo Bar''\<rparr>"

definition paper_foo_bar_again :: paper where
  "paper_foo_bar_again = empty_paper\<lparr>title := Some ''foo   bar!!''\<rparr>"

definition paper_other :: paper where
  "paper_other = empty_paper\<lparr>doi := Some ''10.1/b'', title := Some ''Something else''\<rparr>"

definition untitled_a :: paper where
  "untitled_a = empty_paper\<lparr>source := Some ''arxiv''\<rparr>"

definition untitled_b :: paper where
  "untitled_b = empty_paper\<lparr>source := Some ''semantic_scholar''\<rparr>"

definition paper_alpha :: paper where
  "paper_alpha = empty_paper\<lparr>doi := Some ''10.1/x'', title := Some ''Alpha''\<rparr>"

definition paper_beta :: paper where
  "paper_beta = empty_paper\<lparr>doi := Some ''10.1/X'', title := Some ''Beta Gamma''\<rparr>"

definition paper_beta_again :: paper where
  "paper_beta_again = empty_paper\<lparr>title := Some ''beta gamma''\<rparr>"

definition untitled_doi :: paper where
  "untitled_doi = empty_paper\<lparr>doi := Some ''10.1/X'', source := Some ''arxiv''\<rparr>"


section \<open>download\_pdfs.py\<close>

definition MAX_CONCURRENT_DOWNLOADS :: nat where
  "MAX_CONCURRENT_DOWNLOADS = 5"

definition MAX_RETRIES :: nat where
  "MAX_RETRIES = 5"

definition TIMEOUT_SECONDS :: nat where
  "TIMEOUT_SECONDS = 120"

text \<open>The characters that \<open>sanitize_filename\<close> deletes: \<^verbatim>\<open>< > : " / \ | ? *\<close>.\<close>

definition problematic :: "char list" where
  "problematic =
     [CHR ''<'', CHR ''>'', CHR '':'', CHR 0x22, CHR ''/'', CHR 0x5C, CHR ''|'', CHR ''?'',
      CHR ''*'']"

definition sanitize_filename :: "string \<Rightarrow> string" where
  "sanitize_filename name =
     take 100 (sub_ws_runs False (filter (\<lambda>c. c \<notin> set problematic) name))"

text \<open>\<open>s.replace("/", "_")\<close>.\<close>

definition replace_slash :: "string \<Rightarrow> string" where
  "replace_slash s = map (\<lambda>c. if c = CHR ''/'' then CHR ''_'' else c) s"

definition get_paper_id :: "paper \<Rightarrow> string" where
  "get_paper_id p =
     (case doi p of
        Some (c # cs) \<Rightarrow> sanitize_filename (replace_slash (c # cs))
      | _ \<Rightarrow>
     (case arxiv_id p of
        Some (c # cs) \<Rightarrow>
          sanitize_filename
            (''arxiv_'' @ (if str_contains ''arxiv.org'' (c # cs) then last_segment (c # cs)
                          else c # cs))
      | _ \<Rightarrow>
     (case post_id p of
        Some (c # cs) \<Rightarrow> sanitize_filename (''lw_'' @ c # cs)
      | _ \<Rightarrow>
     (case paperId p of
        Some (c # cs) \<Rightarrow> sanitize_filename (''s2_'' @ c # cs)
      | _ \<Rightarrow>
        sanitize_filename (take 50 (case title p of None \<Rightarrow> ''unknown'' | Some t \<Rightarrow> t))))))"

definition get_pdf_url :: "paper \<Rightarrow> string option" where
  "get_pdf_url p =
     (if truthy (pdf_url p) then pdf_url p
      else case openAccessPdf p of
             None \<Rightarrow> None
           | Some (OaDict u) \<Rightarrow> u
           | Some (OaStr s) \<Rightarrow> (if s = [] then None else Some s))"

subsection \<open>The network and the file system\<close>

text \<open>
  A response as \<open>download_pdf\<close> reads it: the status code, the value of
  \<open>headers.get("content-type", "")\<close> and the body. \<open>raise_for_status\<close> is the library's:
  it raises \<open>HTTPStatusError\<close> for every status outside 200..299.
\<close>

record response =
  status_code :: nat
  content_type :: string
  content :: string

definition raises_for_status :: "response \<Rightarrow> bool" where
  "raises_for_status r = (\<not> (200 \<le> status_code r \<and> status_code r \<le> 299))"

text \<open>
  What the world does during one attempt. \<open>client.get\<close> either raises (a timeout, a
  connection failure: any exception that is not an \<open>HTTPStatusError\<close>) or returns a
  response; if the attempt goes on to write the body, either \<open>open\<close> raises, or \<open>write\<close>
  raises after the given number of bytes reached the file, or the write completes.
\<close>

datatype write_outcome = WriteCompletes | WriteRaises nat | OpenRaises

datatype attempt_io = GetRaises | GetReturns response write_outcome

text \<open>
  The state: the regular files (path to content) and the trace of network requests and
  sleeps, in the order in which they happen. Messages on stderr are not recorded.
\<close>

datatype event = Get string | Sleep nat

record io_state =
  files :: "string \<rightharpoonup> string"
  trace :: "event list"

definition log_event :: "event \<Rightarrow> io_state \<Rightarrow> io_state" where
  "log_event e s = s\<lparr>trace := trace s @ [e]\<rparr>"

text \<open>
  \<open>open(output_path, "wb")\<close> followed by \<open>write\<close>: opening creates or truncates the
  file, and a write that raises leaves the bytes written so far.
\<close>

definition write_file :: "string \<Rightarrow> string \<Rightarrow> write_outcome \<Rightarrow> io_state \<Rightarrow> bool \<times> io_state" where
  "write_file output_path body w s =
     (case w of
        OpenRaises \<Rightarrow> (False, s)
      | WriteRaises k \<Rightarrow> (False, s\<lparr>files := (files s)(output_path \<mapsto> take k body)\<rparr>)
      | WriteCompletes \<Rightarrow> (True, s\<lparr>files := (files s)(output_path \<mapsto> body)\<rparr>))"

text \<open>
  \<open>if attempt < MAX_RETRIES - 1: await asyncio.sleep(2**attempt)\<close>, the common part of
  both exception handlers.
\<close>

definition backoff :: "nat \<Rightarrow> io_state \<Rightarrow> io_state" where
  "backoff attempt s = (if attempt < MAX_RETRIES - 1 then log_event (Sleep (2 ^ attempt)) s else s)"

text \<open>
  One iteration of \<open>for attempt in range(MAX_RETRIES)\<close>. The result \<open>Some b\<close> is
  \<open>return b\<close>; \<open>None\<close> means that the loop goes on.
\<close>

definition attempt_body ::
  "string \<Rightarrow> string \<Rightarrow> nat \<Rightarrow> attempt_io \<Rightarrow> io_state \<Rightarrow> bool option \<times> io_state" where
  "attempt_body url output_path attempt io s =
     (let s1 = log_event (Get url) s in
      case io of
        GetRaises \<Rightarrow> (None, backoff attempt s1)
      | GetReturns resp w \<Rightarrow>
          if raises_for_status resp then
            (if status_code resp \<in> {403, 404, 451} then (Some False, s1)
             else (None, backoff attempt s1))
          else if \<not> str_contains ''pdf'' (str_lower (content_type resp)) \<and>
                  \<not> endswith url ''.pdf'' \<and>
                  str_contains ''html'' (str_lower (content_type resp))
          then (Some False, s1)
          else (case write_file output_path (content resp) w s1 of
                  (True, s2) \<Rightarrow> (Some True, s2)
                | (False, s2) \<Rightarrow> (None, backoff attempt s2)))"

fun download_attempts ::
  "(nat \<Rightarrow> attempt_io) \<Rightarrow> string \<Rightarrow> string \<Rightarrow> nat list \<Rightarrow> io_state \<Rightarrow> bool \<times> io_state" where
  "download_attempts world url output_path [] s = (False, s)"
| "download_attempts world url output_path (attempt # rest) s =
     (case attempt_body url output_path attempt (world attempt) s of
        (Some b, s') \<Rightarrow> (b, s')
      | (None, s') \<Rightarrow> download_attempts world url output_path rest s')"

text \<open>
  \<open>download_pdf\<close>; \<open>world attempt\<close> is what the world does during that attempt. The
  argument \<open>paper_id\<close> of the source only appears in the message on stderr.
\<close>

definition download_pdf ::
  "(nat \<Rightarrow> attempt_io) \<Rightarrow> string \<Rightarrow> string \<Rightarrow> io_state \<Rightarrow> bool \<times> io_state" where
  "download_pdf world url output_path s =
     download_attempts world url output_path [0..<MAX_RETRIES] s"


subsection \<open>The batch\<close>

record stats =
  total :: nat
  downloaded :: nat
  skipped_no_url :: nat
  skipped_exists :: nat
  failed :: nat
  downloaded_files :: "string list"
  failed_papers :: "(string \<times> string option \<times> string) list"

text \<open>
  An entry of \<open>failed_papers\<close> is the triple of \<open>id\<close>, \<open>title\<close> (\<open>paper.get("title")\<close>, so
  \<open>None\<close> when the key is missing) and \<open>url\<close>.

  \<open>download_with_semaphore\<close> is a coroutine. Up to \<open>async with semaphore\<close> it runs without
  suspending: \<open>begin_download\<close> is that first part, which settles the records without a
  URL and those whose file exists, and leaves the others waiting with their id, URL and
  path. \<open>complete_download\<close> is the part under the semaphore. \<open>output_dir / name\<close> is the
  directory, a slash and the name.
\<close>

datatype admission = Finished | Waiting string string string

text \<open>\<open>output_path.exists()\<close>.\<close>

definition file_exists :: "io_state \<Rightarrow> string \<Rightarrow> bool" where
  "file_exists s path = (files s path \<noteq> None)"

definition target_path :: "string \<Rightarrow> paper \<Rightarrow> string" where
  "target_path output_dir p = output_dir @ ''/'' @ get_paper_id p @ ''.pdf''"

definition begin_download :: "string \<Rightarrow> io_state \<Rightarrow> paper \<Rightarrow> stats \<Rightarrow> admission \<times> stats" where
  "begin_download output_dir s p st =
     (let paper_id = get_paper_id p; url = get_pdf_url p in
      case url of
        None \<Rightarrow> (Finished, st\<lparr>skipped_no_url := skipped_no_url st + 1\<rparr>)
      | Some [] \<Rightarrow> (Finished, st\<lparr>skipped_no_url := skipped_no_url st + 1\<rparr>)
      | Some (c # cs) \<Rightarrow>
          (let output_path = output_dir @ ''/'' @ paper_id @ ''.pdf'' in
           if file_exists s output_path
           then (Finished, st\<lparr>skipped_exists := skipped_exists st + 1,
                             downloaded_files := downloaded_files st @ [output_path]\<rparr>)
           else (Waiting paper_id (c # cs) output_path, st)))"

definition complete_download ::
  "(nat \<Rightarrow> attempt_io) \<Rightarrow> paper \<Rightarrow> string \<Rightarrow> string \<Rightarrow> string \<Rightarrow> stats \<times> io_state
     \<Rightarrow> stats \<times> io_state" where
  "complete_download world p paper_id url output_path acc =
     (case acc of (st, s) \<Rightarrow>
        (case download_pdf world url output_path s of
           (True, s') \<Rightarrow>
             (st\<lparr>downloaded := downloaded st + 1,
                 downloaded_files := downloaded_files st @ [output_path]\<rparr>, s')
         | (False, s') \<Rightarrow>
             (st\<lparr>failed := failed st + 1,
                 failed_papers := failed_papers st @ [(paper_id, title p, url)]\<rparr>, s')))"

text \<open>
  \<open>download_all\<close>. \<open>asyncio.gather\<close> starts the coroutines in the order of the list, and
  each runs to its first suspension before any response arrives: so \<open>start_all\<close> runs
  \<open>begin_download\<close> on every record, in order, against the files present at the start,
  and collects the waiting fetches with the position of their record. The fetches then
  finish in an order that the code does not fix: \<open>order\<close> lists positions in the list of
  waiting fetches in the order of completion. Each fetch is run as a whole when it
  completes; the semaphore bounds how many are in flight and plays no part in the
  result. \<open>world i\<close> is what the world does to the fetch of record \<open>i\<close>. Creating
  \<open>output_dir\<close> does not change the regular files.
\<close>

type_synonym waiting = "nat \<times> paper \<times> string \<times> string \<times> string"

definition start_one ::
  "string \<Rightarrow> io_state \<Rightarrow> stats \<times> waiting list \<Rightarrow> nat \<times> paper \<Rightarrow> stats \<times> waiting list" where
  "start_one output_dir s acc ip =
     (case acc of (st, ws) \<Rightarrow> case ip of (i, p) \<Rightarrow>
        (case begin_download output_dir s p st of
           (Finished, st') \<Rightarrow> (st', ws)
         | (Waiting paper_id url output_path, st') \<Rightarrow>
             (st', ws @ [(i, p, paper_id, url, output_path)])))"

definition finish_one ::
  "(nat \<Rightarrow> nat \<Rightarrow> attempt_io) \<Rightarrow> stats \<times> io_state \<Rightarrow> waiting \<Rightarrow> stats \<times> io_state" where
  "finish_one world acc w =
     (case w of (i, p, paper_id, url, output_path) \<Rightarrow>
        complete_download (world i) p paper_id url output_path acc)"

definition initial_stats :: "paper list \<Rightarrow> stats" where
  "initial_stats papers =
     \<lparr>total = length papers, downloaded = 0, skipped_no_url = 0, skipped_exists = 0,
      failed = 0, downloaded_files = [], failed_papers = []\<rparr>"

definition start_all :: "string \<Rightarrow> io_state \<Rightarrow> paper list \<Rightarrow> stats \<times> waiting list" where
  "start_all output_dir s papers =
     foldl (start_one output_dir s) (initial_stats papers, []) (enumerate 0 papers)"

definition download_all ::
  "(nat \<Rightarrow> nat \<Rightarrow> attempt_io) \<Rightarrow> nat list \<Rightarrow> paper list \<Rightarrow> string \<Rightarrow> io_state
     \<Rightarrow> stats \<times> io_state" where
  "download_all world order papers output_dir s =
     (case start_all output_dir s papers of
        (st, ws) \<Rightarrow>
          foldl (finish_one world) (st, s)
            (map (\<lambda>k. ws ! k) (filter (\<lambda>k. k < length ws) order)))"

text \<open>
  Every fetch completes exactly once: \<open>order\<close> is a permutation of the positions of the
  waiting fetches.
\<close>

definition completes_each_once :: "string \<Rightarrow> io_state \<Rightarrow> paper list \<Rightarrow> nat list \<Rightarrow> bool" where
  "completes_each_once output_dir s papers order =
     (mset order = mset [0..<length (snd (start_all output_dir s papers))])"

text \<open>
  The terminal outcome of the record at position \<open>i\<close>, following the state machine of the
  specification: no URL, file already there, fetch succeeded, fetch failed.
\<close>

datatype outcome = Downloaded | SkippedExisting | SkippedNoUrl | Failed

definition outcome_of ::
  "(nat \<Rightarrow> nat \<Rightarrow> attempt_io) \<Rightarrow> string \<Rightarrow> io_state \<Rightarrow> nat \<times> paper \<Rightarrow> outcome" where
  "outcome_of world output_dir s ip =
     (case ip of (i, p) \<Rightarrow>
        (case get_pdf_url p of
           None \<Rightarrow> SkippedNoUrl
         | Some [] \<Rightarrow> SkippedNoUrl
         | Some (c # cs) \<Rightarrow>
             if file_exists s (target_path output_dir p) then SkippedExisting
             else if fst (download_pdf (world i) (c # cs) (target_path output_dir p) s)
             then Downloaded else Failed))"

definition url_of :: "paper \<Rightarrow> string" where
  "url_of p = (case get_pdf_url p of None \<Rightarrow> [] | Some u \<Rightarrow> u)"

definition failed_entry :: "nat \<times> paper \<Rightarrow> string \<times> string option \<times> string" where
  "failed_entry ip = (case ip of (i, p) \<Rightarrow> (get_paper_id p, title p, url_of p))"

text \<open>
  The three ways in which \<open>begin_download\<close> leaves a record, and the waiting fetch of a
  record that has to be fetched.
\<close>

definition no_url :: "nat \<times> paper \<Rightarrow> bool" where
  "no_url ip = (\<not> truthy (get_pdf_url (snd ip)))"

definition already_there :: "string \<Rightarrow> io_state \<Rightarrow> nat \<times> paper \<Rightarrow> bool" where
  "already_there output_dir s ip =
     (truthy (get_pdf_url (snd ip)) \<and> file_exists s (target_path output_dir (snd ip)))"

definition to_fetch :: "string \<Rightarrow> io_state \<Rightarrow> nat \<times> paper \<Rightarrow> bool" where
  "to_fetch output_dir s ip =
     (truthy (get_pdf_url (snd ip)) \<and> \<not> file_exists s (target_path output_dir (snd ip)))"

definition waiting_of :: "string \<Rightarrow> nat \<times> paper \<Rightarrow> waiting" where
  "waiting_of output_dir ip =
     (case ip of (i, p) \<Rightarrow> (i, p, get_paper_id p, url_of p, target_path output_dir p))"

text \<open>Whether the fetch of a waiting record returns \<open>True\<close>, and the path it writes.\<close>

definition fetch_ok :: "(nat \<Rightarrow> nat \<Rightarrow> attempt_io) \<Rightarrow> io_state \<Rightarrow> waiting \<Rightarrow> bool" where
  "fetch_ok world s w =
     (case w of (i, p, paper_id, url, output_path) \<Rightarrow>
        fst (download_pdf (world i) url output_path s))"

text \<open>The waiting fetches in the order in which they complete.\<close>

definition completed :: "string \<Rightarrow> io_state \<Rightarrow> paper list \<Rightarrow> nat list \<Rightarrow> waiting list" where
  "completed output_dir s papers order =
     map (\<lambda>k. snd (start_all output_dir s papers) ! k)
       (filter (\<lambda>k. k < length (snd (start_all output_dir s papers))) order)"

definition waiting_path :: "waiting \<Rightarrow> string" where
  "waiting_path w = (case w of (i, p, paper_id, url, output_path) \<Rightarrow> output_path)"

definition waiting_entry :: "waiting \<Rightarrow> string \<times> string option \<times> string" where
  "waiting_entry w = (case w of (i, p, paper_id, url, output_path) \<Rightarrow> (paper_id, title p, url))"


text \<open>
  An attempt fails transiently when the request raises (timeout, connection failure) or
  the response has a status outside 200..299 other than 403, 404 and 451 (so every 5xx).
\<close>

definition transient :: "attempt_io \<Rightarrow> bool" where
  "transient io =
     (case io of
        GetRaises \<Rightarrow> True
      | GetReturns resp w \<Rightarrow> raises_for_status resp \<and> status_code resp \<notin> {403, 404, 451})"

text \<open>
  The test that makes \<open>download_pdf\<close> give up on a response that looks like an HTML
  page, and three things an attempt can do: end in an exception handler, so that the
  loop goes on; end without opening the target file; reach the write and have it
  raise after \<open>k\<close> bytes.
\<close>

definition rejected_as_html :: "string \<Rightarrow> response \<Rightarrow> bool" where
  "rejected_as_html url resp =
     (\<not> str_contains ''pdf'' (str_lower (content_type resp)) \<and> \<not> endswith url ''.pdf'' \<and>
      str_contains ''html'' (str_lower (content_type resp)))"

definition falls_through :: "string \<Rightarrow> attempt_io \<Rightarrow> bool" where
  "falls_through url io =
     (case io of
        GetRaises \<Rightarrow> True
      | GetReturns resp w \<Rightarrow>
          if raises_for_status resp then status_code resp \<notin> {403, 404, 451}
          else \<not> rejected_as_html url resp \<and> w \<noteq> WriteCompletes)"

definition leaves_file :: "string \<Rightarrow> attempt_io \<Rightarrow> bool" where
  "leaves_file url io =
     (case io of
        GetRaises \<Rightarrow> True
      | GetReturns resp w \<Rightarrow>
          raises_for_status resp \<or> rejected_as_html url resp \<or> w = OpenRaises)"

definition write_breaks_off :: "string \<Rightarrow> attempt_io \<Rightarrow> response \<Rightarrow> nat \<Rightarrow> bool" where
  "write_breaks_off url io resp k =
     (io = GetReturns resp (WriteRaises k) \<and> \<not> raises_for_status resp \<and>
      \<not> rejected_as_html url resp)"

subsection \<open>Concrete responses and states\<close>

definition pdf_response :: response where
  "pdf_response = \<lparr>status_code = 200, content_type = ''application/pdf'',
                    content = ''%PDF-1.4 body''\<rparr>"

definition status_response :: "nat \<Rightarrow> response" where
  "status_response code = \<lparr>status_code = code, content_type = ''text/html'', content = []\<rparr>"

definition empty_disk :: io_state where
  "empty_disk = \<lparr>files = Map.empty, trace = []\<rparr>"

text \<open>The first write breaks off after four bytes; from then on the network is down.\<close>

definition world_broken_write :: "nat \<Rightarrow> attempt_io" where
  "world_broken_write attempt =
     (if attempt = 0 then GetReturns pdf_response (WriteRaises 4) else GetRaises)"

text \<open>Two timeouts, then a response that is written in full.\<close>

definition world_third_time :: "nat \<Rightarrow> attempt_io" where
  "world_third_time attempt =
     (if attempt < 2 then GetRaises else GetReturns pdf_response WriteCompletes)"

text \<open>Every request is answered with the same status.\<close>

definition world_status :: "nat \<Rightarrow> nat \<Rightarrow> attempt_io" where
  "world_status code attempt = GetReturns (status_response code) WriteCompletes"

text \<open>
  A batch of four records: one without a URL, one whose file is on disk, one whose
  fetch succeeds at the third attempt, one whose URL answers 404. The failing fetch
  completes first.
\<close>

definition paper_cached :: paper where
  "paper_cached = empty_paper\<lparr>doi := Some ''10.1/c'',
                              pdf_url := Some ''https://example.org/c.pdf''\<rparr>"

definition paper_fetched :: paper where
  "paper_fetched = empty_paper\<lparr>arxiv_id := Some ''2301.00001'', title := Some ''Fetched'',
                               pdf_url := Some ''https://arxiv.org/pdf/2301.00001''\<rparr>"

definition paper_gone :: paper where
  "paper_gone = empty_paper\<lparr>paperId := Some ''abc'', title := Some ''Gone'',
                            openAccessPdf := Some (OaDict (Some ''https://example.org/gone''))\<rparr>"

definition batch_papers :: "paper list" where
  "batch_papers = [paper_foo_bar, paper_cached, paper_fetched, paper_gone]"

definition batch_disk :: io_state where
  "batch_disk = \<lparr>files = [''papers/10.1_c.pdf'' \<mapsto> ''%PDF cached''], trace = []\<rparr>"

definition batch_world :: "nat \<Rightarrow> nat \<Rightarrow> attempt_io" where
  "batch_world i = (if i = 2 then world_third_time else world_status 404)"

definition batch_order :: "nat list" where
  "batch_order = [1, 0]"


subsection \<open>Which records are the same artifact\<close>

text \<open>
  The identity of a record under the priority-ordered rule: the first identifier that is
  present among DOI, arXiv id, forum post id and provider paper id, and the title when
  there is none. Two records are the same artifact when they have the same identity.
\<close>

datatype id_kind = ByDoi | ByArxiv | ByPost | ByPaperId | ByTitle

definition identity_key :: "paper \<Rightarrow> id_kind \<times> string" where
  "identity_key p =
     (if truthy (doi p) then (ByDoi, case doi p of None \<Rightarrow> [] | Some d \<Rightarrow> d)
      else if truthy (arxiv_id p) then (ByArxiv, case arxiv_id p of None \<Rightarrow> [] | Some a \<Rightarrow> a)
      else if truthy (post_id p) then (ByPost, case post_id p of None \<Rightarrow> [] | Some a \<Rightarrow> a)
      else if truthy (paperId p) then (ByPaperId, case paperId p of None \<Rightarrow> [] | Some a \<Rightarrow> a)
      else (ByTitle, get_title p))"

definition same_artifact :: "paper \<Rightarrow> paper \<Rightarrow> bool" where
  "same_artifact a b = (identity_key a = identity_key b)"

text \<open>Two records whose DOIs differ in one character, a slash against an underscore.\<close>

definition paper_doi_slash :: paper where
  "paper_doi_slash = empty_paper\<lparr>doi := Some ''10.1000/a/b'', title := Some ''First'',
                                 pdf_url := Some ''https://example.org/first.pdf''\<rparr>"

definition paper_doi_underscore :: paper where
  "paper_doi_underscore = empty_paper\<lparr>doi := Some ''10.1000/a_b'', title := Some ''Second'',
                                      pdf_url := Some ''https://example.org/second.pdf''\<rparr>"


section \<open>run\_searches.py\<close>

text \<open>
  What \<open>subprocess.run\<close> does for one search script: the process exits with a return code
  and its stderr text, or the 300 seconds run out, or another exception is raised (its
  text is given).
\<close>

datatype process_outcome = Exited int string | TimeoutExpired | Raised string

definition run_search :: "string \<Rightarrow> process_outcome \<Rightarrow> string \<times> int \<times> string" where
  "run_search name out =
     (case out of
        Exited returncode err \<Rightarrow> (name, returncode, err)
      | TimeoutExpired \<Rightarrow> (name, - 1, ''Timeout after 300 seconds'')
      | Raised msg \<Rightarrow> (name, - 1, msg))"

text \<open>The stems of the three scripts in \<open>searches\<close>.\<close>

definition search_names :: "string list" where
  "search_names = [''search_semantic_scholar'', ''search_arxiv'', ''search_google_scholar'']"

definition success_count :: "(string \<times> int \<times> string) list \<Rightarrow> nat" where
  "success_count results = length (filter (\<lambda>(name, code, err). code = 0) results)"

text \<open>
  \<open>main\<close> of run\_searches.py, as its exit code. \<open>world name\<close> is what happens to the script
  of that name; \<open>completion\<close> lists the scripts in the order in which \<open>as_completed\<close>
  yields them, which is the order of \<open>results\<close>. The printed lines are not modelled.
\<close>

definition run_searches_main :: "(string \<Rightarrow> process_outcome) \<Rightarrow> string list \<Rightarrow> int" where
  "run_searches_main world completion =
     (let results = map (\<lambda>name. run_search name (world name)) completion in
      if success_count results = 0 then 1 else 0)"

text \<open>
  A search task has failed when its process exits with a return code other than 0, when
  its 300 seconds run out, or when it could not be run at all.
\<close>

definition process_failed :: "process_outcome \<Rightarrow> bool" where
  "process_failed out =
     (case out of
        Exited returncode err \<Rightarrow> returncode \<noteq> 0
      | TimeoutExpired \<Rightarrow> True
      | Raised msg \<Rightarrow> True)"

text \<open>arXiv times out, Semantic Scholar succeeds, Google Scholar exits with 1.\<close>

definition world_one_timeout :: "string \<Rightarrow> process_outcome" where
  "world_one_timeout name =
     (if name = ''search_arxiv'' then TimeoutExpired
      else if name = ''search_semantic_scholar'' then Exited 0 []
      else Exited 1 ''HTTP 429'')"

text \<open>Every script times out.\<close>

definition world_all_timeout :: "string \<Rightarrow> process_outcome" where
  "world_all_timeout name = TimeoutExpired"


section \<open>Properties of the deduplication\<close>

subsection \<open>What one iteration does to the state\<close>

lemma step_deduplicated:
  "deduplicated (dedup_step py ratio thr s p) =
     (if keeps py ratio thr s p then deduplicated s @ [p] else deduplicated s)"
  by (auto simp: dedup_step_def check_title_def keeps_def doi_seen_def title_seen_def Let_def
           split: option.splits)

lemma step_seen_titles:
  "seen_titles (dedup_step py ratio thr s p) =
     (if keeps py ratio thr s p \<and> norm_title py p \<noteq> [] then seen_titles s @ [norm_title py p]
      else seen_titles s)"
  by (auto simp: dedup_step_def check_title_def keeps_def doi_seen_def title_seen_def Let_def
        norm_title_def normalize_title_def
           split: option.splits)

lemma step_seen_dois:
  "seen_dois (dedup_step py ratio thr s p) =
     (case get_doi py p of
        None \<Rightarrow> seen_dois s
      | Some d \<Rightarrow> if d = [] then seen_dois s else insert d (seen_dois s))"
  by (auto simp: dedup_step_def check_title_def Let_def split: option.splits)

lemma is_duplicate_iff:
  "is_duplicate ratio thr n ts = (\<exists>t \<in> set ts. thr \<le> ratio n t / 100)"
  by (induction ts) auto

lemma foldl_retained:
  "deduplicated (foldl (dedup_step py ratio thr) s ps) = deduplicated s @ retained py ratio thr s ps"
  by (induction ps arbitrary: s) (simp_all add: step_deduplicated)

lemma keeps_cong:
  "seen_dois s' \<subseteq> seen_dois s \<Longrightarrow> set (seen_titles s') \<subseteq> set (seen_titles s) \<Longrightarrow>
   keeps py ratio thr s p \<Longrightarrow> keeps py ratio thr s' p"
  by (auto simp: keeps_def doi_seen_def title_seen_def is_duplicate_iff split: option.splits)

lemma retained_idem:
  "seen_dois s' \<subseteq> seen_dois s \<Longrightarrow> seen_titles s' = seen_titles s \<Longrightarrow>
   retained py ratio thr s' (retained py ratio thr s ps) = retained py ratio thr s ps"
proof (induction ps arbitrary: s s')
  case Nil
  then show ?case by simp
next
  case (Cons p ps)
  show ?case
  proof (cases "keeps py ratio thr s p")
    case True
    with Cons.prems have k': "keeps py ratio thr s' p"
      by (auto intro: keeps_cong)
    have d: "seen_dois (dedup_step py ratio thr s' p) \<subseteq> seen_dois (dedup_step py ratio thr s p)"
      using Cons.prems by (auto simp: step_seen_dois split: option.splits)
    have t: "seen_titles (dedup_step py ratio thr s' p) = seen_titles (dedup_step py ratio thr s p)"
      using Cons.prems True k' by (simp add: step_seen_titles)
    from True k' Cons.IH[OF d t] show ?thesis by simp
  next
    case False
    have d: "seen_dois s' \<subseteq> seen_dois (dedup_step py ratio thr s p)"
      using Cons.prems by (auto simp: step_seen_dois split: option.splits)
    have t: "seen_titles s' = seen_titles (dedup_step py ratio thr s p)"
      using Cons.prems False by (simp add: step_seen_titles)
    from False Cons.IH[OF d t] show ?thesis by simp
  qed
qed

subsection \<open>What a run keeps\<close>

lemma retained_subset: "set (retained py ratio thr s ps) \<subseteq> set ps"
  by (induction ps arbitrary: s) auto

lemma foldl_seen_titles:
  "seen_titles (foldl (dedup_step py ratio thr) s ps) =
   seen_titles s @ map (norm_title py) (filter (\<lambda>q. norm_title py q \<noteq> []) (retained py ratio thr s ps))"
  by (induction ps arbitrary: s) (simp_all add: step_seen_titles)

lemma foldl_seen_dois:
  "seen_dois (foldl (dedup_step py ratio thr) s ps) =
   seen_dois s \<union> {d. d \<noteq> [] \<and> (\<exists>p \<in> set ps. get_doi py p = Some d)}"
  by (induction ps arbitrary: s) (auto simp: step_seen_dois split: option.splits)

lemma doi_seen_after:
  "doi_seen py (foldl (dedup_step py ratio thr) dedup_init pre) b =
   (\<exists>p \<in> set pre. doi_match py p b)"
proof (cases "get_doi py b")
  case None
  then have "\<not> doi_match py p b" for p
    by (cases "get_doi py p") (simp_all add: doi_match_def)
  with None show ?thesis
    by (simp add: doi_seen_def)
next
  case (Some d)
  show ?thesis
  proof (cases "d = []")
    case True
    with Some have "\<not> doi_match py p b" for p
      by (cases "get_doi py p") (auto simp: doi_match_def)
    with Some True show ?thesis
      by (simp add: doi_seen_def)
  next
    case False
    with Some have "doi_match py p b = (get_doi py p = Some d)" for p
      by (auto simp: doi_match_def)
    with Some False show ?thesis
      by (simp add: doi_seen_def foldl_seen_dois dedup_init_def)
  qed
qed

lemma title_seen_after:
  "title_seen py ratio thr (foldl (dedup_step py ratio thr) dedup_init pre) b =
   (norm_title py b \<noteq> [] \<and>
    (\<exists>a \<in> set (deduplicate_papers py ratio pre thr).
        norm_title py a \<noteq> [] \<and> thr \<le> ratio (norm_title py b) (norm_title py a) / 100))"
  by (auto simp: title_seen_def foldl_seen_titles is_duplicate_iff dedup_init_def
        deduplicate_papers_def foldl_retained norm_title_def normalize_title_def)

lemma deduplicate_papers_snoc:
  "deduplicate_papers py ratio (pre @ [b]) thr =
     (if (\<exists>p \<in> set pre. doi_match py p b) \<or>
         (norm_title py b \<noteq> [] \<and>
          (\<exists>a \<in> set (deduplicate_papers py ratio pre thr).
              norm_title py a \<noteq> [] \<and> thr \<le> ratio (norm_title py b) (norm_title py a) / 100))
      then deduplicate_papers py ratio pre thr
      else deduplicate_papers py ratio pre thr @ [b])"
proof -
  let ?S = "foldl (dedup_step py ratio thr) dedup_init pre"
  have "deduplicate_papers py ratio (pre @ [b]) thr = deduplicated (dedup_step py ratio thr ?S b)"
    by (simp add: deduplicate_papers_def)
  also have "\<dots> = (if keeps py ratio thr ?S b then deduplicated ?S @ [b] else deduplicated ?S)"
    by (rule step_deduplicated)
  finally show ?thesis
    unfolding keeps_def doi_seen_after title_seen_after
    by (simp add: deduplicate_papers_def)
qed

lemma deduplicate_papers_subset: "set (deduplicate_papers py ratio ps thr) \<subseteq> set ps"
  using retained_subset[of py ratio thr dedup_init ps]
  by (simp add: deduplicate_papers_def foldl_retained dedup_init_def)

lemma deduplicate_papers_sorted_wrt:
  "sorted_wrt (apart py ratio thr) (deduplicate_papers py ratio ps thr)"
proof (induction ps rule: rev_induct)
  case Nil
  show ?case by (simp add: deduplicate_papers_def dedup_init_def)
next
  case (snoc b pre)
  show ?case
  proof (cases "deduplicate_papers py ratio (pre @ [b]) thr = deduplicate_papers py ratio pre thr")
    case True
    with snoc show ?thesis by simp
  next
    case False
    then have nd: "\<forall>p \<in> set pre. \<not> doi_match py p b"
      and nt: "norm_title py b \<noteq> [] \<longrightarrow> (\<forall>a \<in> set (deduplicate_papers py ratio pre thr).
                 norm_title py a \<noteq> [] \<longrightarrow> ratio (norm_title py b) (norm_title py a) / 100 < thr)"
      and eq: "deduplicate_papers py ratio (pre @ [b]) thr = deduplicate_papers py ratio pre thr @ [b]"
      by (auto simp: deduplicate_papers_snoc not_le split: if_splits)
    have "\<forall>a \<in> set (deduplicate_papers py ratio pre thr). apart py ratio thr a b"
      using nd nt deduplicate_papers_subset[of py ratio pre thr] by (auto simp: apart_def)
    with snoc eq show ?thesis by (simp add: sorted_wrt_append)
  qed
qed

text \<open>
  Claim C4. Deduplication is idempotent: for every scorer, every list of records and
  every threshold, running \<open>deduplicate_papers\<close> on its own output, with the same
  threshold, returns that output unchanged; no further record is dropped.
\<close>

theorem deduplicate_papers_idempotent:
  "deduplicate_papers py ratio (deduplicate_papers py ratio papers threshold) threshold =
   deduplicate_papers py ratio papers threshold"
proof -
  let ?out = "retained py ratio threshold dedup_init papers"
  have first: "deduplicate_papers py ratio papers threshold = ?out"
    by (simp add: deduplicate_papers_def foldl_retained dedup_init_def)
  have "deduplicate_papers py ratio ?out threshold = retained py ratio threshold dedup_init ?out"
    by (simp add: deduplicate_papers_def foldl_retained dedup_init_def)
  also have "\<dots> = ?out"
    by (rule retained_idem) simp_all
  finally show ?thesis
    by (simp only: first)
qed

text \<open>
  Claim C3, as the code has it. For every scorer, list of records and threshold, any two
  elements of the output of \<open>deduplicate_papers\<close>, at positions \<open>i < j\<close>, have DOIs that
  do not match, and if both have a non-empty normalized title, the title of the later
  one scores strictly below the threshold against the title of the earlier one. A
  record \<open>b\<close> whose normalized title is empty is never compared by title: coming after
  the records \<open>pre\<close>, it is dropped if one of them has its DOI and kept otherwise.
\<close>

theorem deduplicate_papers_no_two_match:
  "(i < j \<and> j < length (deduplicate_papers py ratio papers threshold) \<longrightarrow>
      \<not> doi_match py (deduplicate_papers py ratio papers threshold ! i)
                      (deduplicate_papers py ratio papers threshold ! j) \<and>
      (norm_title py (deduplicate_papers py ratio papers threshold ! i) \<noteq> [] \<and>
       norm_title py (deduplicate_papers py ratio papers threshold ! j) \<noteq> [] \<longrightarrow>
       ratio (norm_title py (deduplicate_papers py ratio papers threshold ! j))
             (norm_title py (deduplicate_papers py ratio papers threshold ! i)) / 100
         < threshold))
   \<and>
   (norm_title py b = [] \<longrightarrow>
      deduplicate_papers py ratio (pre @ [b]) threshold =
        (if \<exists>p \<in> set pre. doi_match py p b
         then deduplicate_papers py ratio pre threshold
         else deduplicate_papers py ratio pre threshold @ [b]))"
proof (intro conjI impI)
  assume ij: "i < j \<and> j < length (deduplicate_papers py ratio papers threshold)"
  let ?out = "deduplicate_papers py ratio papers threshold"
  have "sorted_wrt (apart py ratio threshold) ?out"
    by (rule deduplicate_papers_sorted_wrt)
  with ij have ap: "apart py ratio threshold (?out ! i) (?out ! j)"
    by (simp add: sorted_wrt_iff_nth_less)
  from ap show "\<not> doi_match py (?out ! i) (?out ! j)"
    by (simp add: apart_def)
  assume "norm_title py (?out ! i) \<noteq> [] \<and> norm_title py (?out ! j) \<noteq> []"
  with ap show "ratio (norm_title py (?out ! j)) (norm_title py (?out ! i)) / 100 < threshold"
    by (simp add: apart_def)
next
  assume "norm_title py b = []"
  then show "deduplicate_papers py ratio (pre @ [b]) threshold =
        (if \<exists>p \<in> set pre. doi_match py p b
         then deduplicate_papers py ratio pre threshold
         else deduplicate_papers py ratio pre threshold @ [b])"
    by (simp add: deduplicate_papers_snoc)
qed

text \<open>
  The statement above at the example of the specification (three records, threshold
  0.85, of which the first and the third are kept), at a record without title or DOI,
  which is kept, and at a record without title whose DOI has been seen in another
  case, which is dropped.
\<close>

theorem deduplicate_papers_no_two_match_witness:
  "((0::nat) < 1 \<and>
    1 < length (deduplicate_papers ascii_str exact_ratio
                  [paper_foo_bar, paper_foo_bar_again, paper_other] (85 / 100)) \<and>
    \<not> doi_match ascii_str paper_foo_bar paper_other \<and>
    norm_title ascii_str paper_foo_bar \<noteq> [] \<and> norm_title ascii_str paper_other \<noteq> [] \<and>
    exact_ratio (norm_title ascii_str paper_other) (norm_title ascii_str paper_foo_bar) / 100
      < 85 / 100)
   \<and>
   (norm_title ascii_str untitled_b = [] \<and>
    \<not> doi_match ascii_str untitled_a untitled_b \<and>
    deduplicate_papers ascii_str exact_ratio ([untitled_a] @ [untitled_b]) (85 / 100) =
      deduplicate_papers ascii_str exact_ratio [untitled_a] (85 / 100) @ [untitled_b])
   \<and>
   (norm_title ascii_str untitled_doi = [] \<and>
    doi_match ascii_str paper_alpha untitled_doi \<and>
    deduplicate_papers ascii_str exact_ratio ([paper_alpha] @ [untitled_doi]) (85 / 100) =
      deduplicate_papers ascii_str exact_ratio [paper_alpha] (85 / 100))"
proof -
  let ?out = "deduplicate_papers ascii_str exact_ratio
                 [paper_foo_bar, paper_foo_bar_again, paper_other] (85 / 100)"
  have h: "(0::nat) < 1 \<and> 1 < length ?out"
    by code_simp
  have e0: "?out ! 0 = paper_foo_bar"
    by code_simp
  have e1: "?out ! 1 = paper_other"
    by code_simp
  have n1: "norm_title ascii_str paper_foo_bar \<noteq> []" by code_simp
  have n2: "norm_title ascii_str paper_other \<noteq> []" by code_simp
  note pairs = deduplicate_papers_no_two_match[where py = ascii_str and ratio = exact_ratio
      and papers = "[paper_foo_bar, paper_foo_bar_again, paper_other]"
      and threshold = "85 / 100" and i = 0 and j = 1, THEN conjunct1, rule_format, OF h]
  from pairs have p1: "\<not> doi_match ascii_str paper_foo_bar paper_other"
    unfolding e0 e1 by (rule conjunct1)
  from pairs n1 n2
  have p2: "exact_ratio (norm_title ascii_str paper_other) (norm_title ascii_str paper_foo_bar)
              / 100 < 85 / 100"
    unfolding e0 e1 by blast
  have u: "norm_title ascii_str untitled_b = []" by code_simp
  have nd: "\<not> (\<exists>p \<in> set [untitled_a]. doi_match ascii_str p untitled_b)" by code_simp
  then have nd': "\<not> doi_match ascii_str untitled_a untitled_b" by simp
  note kept = deduplicate_papers_no_two_match[where py = ascii_str and ratio = exact_ratio
      and pre = "[untitled_a]" and b = untitled_b and threshold = "85 / 100",
      THEN conjunct2, rule_format, OF u]
  have k: "deduplicate_papers ascii_str exact_ratio ([untitled_a] @ [untitled_b]) (85 / 100) =
      deduplicate_papers ascii_str exact_ratio [untitled_a] (85 / 100) @ [untitled_b]"
    by (rule trans[OF kept if_not_P[OF nd]])
  have v: "norm_title ascii_str untitled_doi = []" by code_simp
  have sd: "\<exists>p \<in> set [paper_alpha]. doi_match ascii_str p untitled_doi" by code_simp
  then have sd': "doi_match ascii_str paper_alpha untitled_doi" by simp
  note dropped = deduplicate_papers_no_two_match[where py = ascii_str and ratio = exact_ratio
      and pre = "[paper_alpha]" and b = untitled_doi and threshold = "85 / 100",
      THEN conjunct2, rule_format, OF v]
  have d: "deduplicate_papers ascii_str exact_ratio ([paper_alpha] @ [untitled_doi]) (85 / 100) =
      deduplicate_papers ascii_str exact_ratio [paper_alpha] (85 / 100)"
    by (rule trans[OF dropped if_P[OF sd]])
  show ?thesis
    by (insert h p1 n1 n2 p2 u nd' k v sd' d, intro conjI; (elim conjE)?; assumption)
qed

text \<open>
  Claim C3 as stated fails for records without a title: with threshold 0 every score is
  at least the threshold, and two records that have neither DOI nor title are both
  kept.
\<close>

theorem deduplicate_papers_untitled_counterexample:
  "deduplicate_papers ascii_str exact_ratio [untitled_a, untitled_b] 0 = [untitled_a, untitled_b] \<and>
   untitled_a \<noteq> untitled_b \<and>
   identity_equivalent ascii_str exact_ratio 0 untitled_a untitled_b"
  by code_simp

text \<open>
  Claim C7, as the code has it. Let \<open>b\<close> be the record that follows the records \<open>pre\<close>.
  If some record kept from \<open>pre\<close> has a non-empty normalized title against which the
  non-empty normalized title of \<open>b\<close> scores at least the threshold (a score equal to the
  threshold included), then \<open>b\<close> is dropped. If no record of \<open>pre\<close> matches the DOI of
  \<open>b\<close> and the title of \<open>b\<close> scores strictly below the threshold against the title of
  every record kept from \<open>pre\<close>, then \<open>b\<close> is kept.
\<close>

theorem title_threshold_boundary:
  "(a \<in> set (deduplicate_papers py ratio pre threshold) \<and> norm_title py a \<noteq> [] \<and>
    norm_title py b \<noteq> [] \<and> threshold \<le> ratio (norm_title py b) (norm_title py a) / 100
    \<longrightarrow> deduplicate_papers py ratio (pre @ [b]) threshold = deduplicate_papers py ratio pre threshold)
   \<and>
   ((\<forall>p \<in> set pre. \<not> doi_match py p b) \<and>
    (\<forall>a \<in> set (deduplicate_papers py ratio pre threshold).
        norm_title py a \<noteq> [] \<longrightarrow> ratio (norm_title py b) (norm_title py a) / 100 < threshold)
    \<longrightarrow> deduplicate_papers py ratio (pre @ [b]) threshold =
        deduplicate_papers py ratio pre threshold @ [b])"
proof (intro conjI impI)
  assume "a \<in> set (deduplicate_papers py ratio pre threshold) \<and> norm_title py a \<noteq> [] \<and>
    norm_title py b \<noteq> [] \<and> threshold \<le> ratio (norm_title py b) (norm_title py a) / 100"
  then have "norm_title py b \<noteq> [] \<and>
      (\<exists>a \<in> set (deduplicate_papers py ratio pre threshold).
         norm_title py a \<noteq> [] \<and> threshold \<le> ratio (norm_title py b) (norm_title py a) / 100)"
    by blast
  then show "deduplicate_papers py ratio (pre @ [b]) threshold =
             deduplicate_papers py ratio pre threshold"
    by (simp add: deduplicate_papers_snoc)
next
  assume "(\<forall>p \<in> set pre. \<not> doi_match py p b) \<and>
    (\<forall>a \<in> set (deduplicate_papers py ratio pre threshold).
        norm_title py a \<noteq> [] \<longrightarrow> ratio (norm_title py b) (norm_title py a) / 100 < threshold)"
  then have "\<not> ((\<exists>p \<in> set pre. doi_match py p b) \<or>
         (norm_title py b \<noteq> [] \<and>
          (\<exists>a \<in> set (deduplicate_papers py ratio pre threshold).
              norm_title py a \<noteq> [] \<and> threshold \<le> ratio (norm_title py b) (norm_title py a) / 100)))"
    by (auto simp: not_le)
  then show "deduplicate_papers py ratio (pre @ [b]) threshold =
             deduplicate_papers py ratio pre threshold @ [b]"
    by (simp only: deduplicate_papers_snoc if_False)
qed

text \<open>
  Both halves at a scorer that always says 85: with threshold 0.85 the second record is
  dropped, with threshold 0.86 it is kept.
\<close>

theorem title_threshold_boundary_witness:
  "(paper_foo_bar \<in> set (deduplicate_papers ascii_str (fixed_ratio 85) [paper_foo_bar] (85 / 100)) \<and>
    norm_title ascii_str paper_foo_bar \<noteq> [] \<and> norm_title ascii_str paper_other \<noteq> [] \<and>
    fixed_ratio 85 (norm_title ascii_str paper_other) (norm_title ascii_str paper_foo_bar) / 100 = 85 / 100 \<and>
    deduplicate_papers ascii_str (fixed_ratio 85) ([paper_foo_bar] @ [paper_other]) (85 / 100)
      = deduplicate_papers ascii_str (fixed_ratio 85) [paper_foo_bar] (85 / 100))
   \<and>
   (\<not> doi_match ascii_str paper_foo_bar paper_other \<and>
    fixed_ratio 85 (norm_title ascii_str paper_other) (norm_title ascii_str paper_foo_bar) / 100 < 86 / 100 \<and>
    deduplicate_papers ascii_str (fixed_ratio 85) ([paper_foo_bar] @ [paper_other]) (86 / 100)
      = deduplicate_papers ascii_str (fixed_ratio 85) [paper_foo_bar] (86 / 100) @ [paper_other])"
proof -
  have d1: "deduplicate_papers ascii_str (fixed_ratio 85) [paper_foo_bar] (85 / 100) = [paper_foo_bar]"
    by code_simp
  have d2: "deduplicate_papers ascii_str (fixed_ratio 85) [paper_foo_bar] (86 / 100) = [paper_foo_bar]"
    by code_simp
  have n1: "norm_title ascii_str paper_foo_bar \<noteq> []" by code_simp
  have n2: "norm_title ascii_str paper_other \<noteq> []" by code_simp
  have nd: "\<not> doi_match ascii_str paper_foo_bar paper_other" by code_simp
  have m: "paper_foo_bar \<in> set (deduplicate_papers ascii_str (fixed_ratio 85) [paper_foo_bar] (85 / 100))"
    unfolding d1 by simp
  have r1: "fixed_ratio 85 (norm_title ascii_str paper_other) (norm_title ascii_str paper_foo_bar) / 100 = 85 / 100"
    by (simp add: fixed_ratio_def)
  have r2: "fixed_ratio 85 (norm_title ascii_str paper_other) (norm_title ascii_str paper_foo_bar) / 100 < 86 / 100"
    by (simp add: fixed_ratio_def)
  have q1: "\<forall>p \<in> set [paper_foo_bar]. \<not> doi_match ascii_str p paper_other"
    using nd by simp
  have q2: "\<forall>a \<in> set (deduplicate_papers ascii_str (fixed_ratio 85) [paper_foo_bar] (86 / 100)).
        norm_title ascii_str a \<noteq> [] \<longrightarrow>
        fixed_ratio 85 (norm_title ascii_str paper_other) (norm_title ascii_str a) / 100 < 86 / 100"
    by (simp add: fixed_ratio_def)
  have le: "85 / 100 \<le> fixed_ratio 85 (norm_title ascii_str paper_other) (norm_title ascii_str paper_foo_bar) / 100"
    by (simp add: fixed_ratio_def)
  from title_threshold_boundary[of paper_foo_bar ascii_str "fixed_ratio 85" "[paper_foo_bar]" "85 / 100" paper_other]
       m n1 n2 le
  have c1: "deduplicate_papers ascii_str (fixed_ratio 85) ([paper_foo_bar] @ [paper_other]) (85 / 100)
      = deduplicate_papers ascii_str (fixed_ratio 85) [paper_foo_bar] (85 / 100)"
    by blast
  from title_threshold_boundary[of paper_foo_bar ascii_str "fixed_ratio 85" "[paper_foo_bar]" "86 / 100" paper_other]
       q1 q2
  have c2: "deduplicate_papers ascii_str (fixed_ratio 85) ([paper_foo_bar] @ [paper_other]) (86 / 100)
      = deduplicate_papers ascii_str (fixed_ratio 85) [paper_foo_bar] (86 / 100) @ [paper_other]"
    by blast
  from m n1 n2 r1 c1 nd r2 c2 show ?thesis
    by blast
qed

text \<open>
  Claim C7 as stated fails when the earlier record of the pair was itself dropped: the
  second record below shares the DOI of the first (in another case) and is dropped, so
  its title is never recorded; the third record has the same normalized title as the
  second (score 100, threshold 1) and is kept.
\<close>

theorem title_threshold_boundary_counterexample:
  "exact_ratio (norm_title ascii_str paper_beta_again) (norm_title ascii_str paper_beta) / 100 = 1 \<and>
   deduplicate_papers ascii_str exact_ratio [paper_alpha, paper_beta, paper_beta_again] 1
     = [paper_alpha, paper_beta_again]"
  by code_simp


section \<open>Properties of the downloader\<close>

subsection \<open>One fetch\<close>

lemma download_pdf_unfold:
  "download_pdf world url output_path s = download_attempts world url output_path [0, 1, 2, 3, 4] s"
  by (simp add: download_pdf_def MAX_RETRIES_def eval_nat_numeral upt_rec)

lemma backoff_unfold:
  "backoff attempt s = (if attempt < 4 then s\<lparr>trace := trace s @ [Sleep (2 ^ attempt)]\<rparr> else s)"
  by (simp add: backoff_def MAX_RETRIES_def log_event_def)

lemma attempt_body_permanent:
  "status_code resp \<in> {403, 404, 451} \<Longrightarrow>
   attempt_body url output_path attempt (GetReturns resp w) s = (Some False, log_event (Get url) s)"
  by (auto simp: attempt_body_def raises_for_status_def)

lemma attempt_body_transient:
  "transient io \<Longrightarrow>
   attempt_body url output_path attempt io s = (None, backoff attempt (log_event (Get url) s))"
  by (cases io) (auto simp: attempt_body_def transient_def)

lemma write_file_frame:
  "write_file output_path body w s = (b, s') \<Longrightarrow>
   trace s' = trace s \<and> (\<forall>q. q \<noteq> output_path \<longrightarrow> files s' q = files s q)"
  by (cases w) (auto simp: write_file_def)

lemma write_file_True:
  "write_file output_path body w s = (True, s') \<Longrightarrow>
   w = WriteCompletes \<and> files s' output_path = Some body"
  by (cases w) (auto simp: write_file_def)

lemma backoff_files: "files (backoff attempt s) = files s"
  by (simp add: backoff_def log_event_def)

lemma attempt_body_frame:
  "attempt_body url output_path attempt io s = (r, s') \<Longrightarrow> q \<noteq> output_path \<Longrightarrow>
   files s' q = files s q"
  by (cases io)
     (auto simp: attempt_body_def Let_def backoff_files log_event_def
           split: if_splits prod.splits bool.splits dest!: write_file_frame)

lemma attempt_body_True:
  "attempt_body url output_path attempt io s = (Some True, s') \<Longrightarrow>
   \<exists>resp. io = GetReturns resp WriteCompletes \<and> \<not> raises_for_status resp \<and>
          files s' output_path = Some (content resp)"
  by (cases io)
     (auto simp: attempt_body_def Let_def
           split: if_splits prod.splits bool.splits dest!: write_file_True)

lemma download_attempts_frame:
  "download_attempts world url output_path as s = (b, s') \<Longrightarrow> q \<noteq> output_path \<Longrightarrow>
   files s' q = files s q"
proof (induction as arbitrary: s)
  case Nil
  then show ?case by simp
next
  case (Cons a as)
  obtain r s1 where ab: "attempt_body url output_path a (world a) s = (r, s1)"
    by (cases "attempt_body url output_path a (world a) s")
  have f1: "files s1 q = files s q"
    using attempt_body_frame[OF ab Cons.prems(2)] .
  show ?case
  proof (cases r)
    case None
    with Cons.prems ab have "download_attempts world url output_path as s1 = (b, s')"
      by simp
    from Cons.IH[OF this Cons.prems(2)] f1 show ?thesis by simp
  next
    case (Some b')
    with Cons.prems ab have "s' = s1" by simp
    with f1 show ?thesis by simp
  qed
qed

lemma download_attempts_True:
  "download_attempts world url output_path as s = (True, s') \<Longrightarrow>
   \<exists>a resp. a \<in> set as \<and> world a = GetReturns resp WriteCompletes \<and>
            \<not> raises_for_status resp \<and> files s' output_path = Some (content resp)"
proof (induction as arbitrary: s)
  case Nil
  then show ?case by simp
next
  case (Cons a as)
  obtain r s1 where ab: "attempt_body url output_path a (world a) s = (r, s1)"
    by (cases "attempt_body url output_path a (world a) s")
  show ?case
  proof (cases r)
    case None
    with Cons.prems ab have "download_attempts world url output_path as s1 = (True, s')"
      by simp
    from Cons.IH[OF this] show ?thesis by auto
  next
    case (Some b')
    with Cons.prems ab have "attempt_body url output_path a (world a) s = (Some True, s')"
      by simp
    from attempt_body_True[OF this] show ?thesis by auto
  qed
qed

lemma content_type_checks:
  "str_contains ''pdf'' (str_lower ''application/pdf'')"
  "endswith ''https://example.org/a.pdf'' ''.pdf''"
  by code_simp+

lemma attempt_body_falls:
  "falls_through url io \<Longrightarrow> fst (attempt_body url output_path attempt io s) = None"
  by (cases io)
     (auto simp: attempt_body_def falls_through_def rejected_as_html_def write_file_def Let_def
           split: if_splits write_outcome.splits)

lemma attempt_body_leaves:
  "leaves_file url io \<Longrightarrow>
   fst (attempt_body url output_path attempt io s) \<noteq> Some True \<and>
   files (snd (attempt_body url output_path attempt io s)) = files s"
  by (cases io)
     (auto simp: attempt_body_def leaves_file_def rejected_as_html_def write_file_def Let_def
        backoff_files log_event_def)

lemma attempt_body_breaks_off:
  "write_breaks_off url io resp k \<Longrightarrow>
   fst (attempt_body url output_path attempt io s) = None \<and>
   files (snd (attempt_body url output_path attempt io s)) =
     (files s)(output_path \<mapsto> take k (content resp))"
  by (auto simp: attempt_body_def write_breaks_off_def rejected_as_html_def write_file_def
        Let_def backoff_files log_event_def)

lemma download_attempts_fall_through:
  "\<forall>b \<in> set bs. falls_through url (world b) \<Longrightarrow>
   \<exists>s1. download_attempts world url output_path (bs @ rest) s =
        download_attempts world url output_path rest s1"
proof (induction bs arbitrary: s)
  case Nil
  show ?case by auto
next
  case (Cons b bs)
  obtain r s1 where ab: "attempt_body url output_path b (world b) s = (r, s1)"
    by (cases "attempt_body url output_path b (world b) s")
  from Cons.prems attempt_body_falls[of url "world b" output_path b s] ab have "r = None"
    by simp
  with ab have "download_attempts world url output_path ((b # bs) @ rest) s =
                download_attempts world url output_path (bs @ rest) s1"
    by simp
  with Cons.IH[of s1] Cons.prems show ?case
    by auto
qed

lemma download_attempts_leave:
  "\<forall>b \<in> set bs. leaves_file url (world b) \<Longrightarrow>
   fst (download_attempts world url output_path bs s) = False \<and>
   files (snd (download_attempts world url output_path bs s)) = files s"
proof (induction bs arbitrary: s)
  case Nil
  show ?case by simp
next
  case (Cons b bs)
  obtain r s1 where ab: "attempt_body url output_path b (world b) s = (r, s1)"
    by (cases "attempt_body url output_path b (world b) s")
  from Cons.prems attempt_body_leaves[of url "world b" output_path b s] ab
  have r: "r \<noteq> Some True" and f: "files s1 = files s"
    by simp_all
  show ?case
  proof (cases r)
    case None
    with ab Cons.IH[of s1] Cons.prems f show ?thesis
      by simp
  next
    case (Some x)
    with r have "x = False" by simp
    with Some ab f show ?thesis
      by simp
  qed
qed

lemma attempts_split:
  "attempt < MAX_RETRIES \<Longrightarrow>
   [0..<MAX_RETRIES] = [0..<attempt] @ attempt # [Suc attempt..<MAX_RETRIES]"
proof -
  assume a: "attempt < MAX_RETRIES"
  then have "[0..<MAX_RETRIES] = [0..<attempt] @ [attempt..<MAX_RETRIES]"
    using upt_add_eq_append[of 0 attempt "MAX_RETRIES - attempt"] by simp
  also from a have "[attempt..<MAX_RETRIES] = attempt # [Suc attempt..<MAX_RETRIES]"
    by (rule upt_conv_Cons)
  finally show ?thesis .
qed

lemma download_pdf_broken_write:
  assumes a: "attempt < MAX_RETRIES"
    and before: "\<forall>b < attempt. falls_through url (world b)"
    and at: "write_breaks_off url (world attempt) resp k"
    and after: "\<forall>b. attempt < b \<and> b < MAX_RETRIES \<longrightarrow> leaves_file url (world b)"
  shows "fst (download_pdf world url output_path s) = False \<and>
         files (snd (download_pdf world url output_path s)) output_path =
           Some (take k (content resp))"
proof -
  let ?rest = "attempt # [Suc attempt..<MAX_RETRIES]"
  from before have "\<forall>b \<in> set [0..<attempt]. falls_through url (world b)"
    by simp
  from download_attempts_fall_through[OF this, of output_path ?rest s]
  obtain s1 where s1: "download_attempts world url output_path ([0..<attempt] @ ?rest) s =
                       download_attempts world url output_path ?rest s1"
    by blast
  obtain r s2 where ab: "attempt_body url output_path attempt (world attempt) s1 = (r, s2)"
    by (cases "attempt_body url output_path attempt (world attempt) s1")
  from attempt_body_breaks_off[OF at, of output_path attempt s1] ab
  have r: "r = None" and f2: "files s2 = (files s1)(output_path \<mapsto> take k (content resp))"
    by simp_all
  from after have "\<forall>b \<in> set [Suc attempt..<MAX_RETRIES]. leaves_file url (world b)"
    by simp
  note tail = download_attempts_leave[OF this, of output_path s2]
  have "download_pdf world url output_path s =
        download_attempts world url output_path [Suc attempt..<MAX_RETRIES] s2"
    using attempts_split[OF a] s1 ab r by (simp add: download_pdf_def)
  with tail f2 show ?thesis
    by simp
qed

text \<open>
  Claim C1, as the code has it. \<open>download_pdf\<close> opens the target path itself and writes
  the body into it; there is no temporary file and no rename. What holds is this.
  Whatever \<open>download_pdf\<close> returns, no file other than the target path is changed. If it
  returns \<open>True\<close>, one of its attempts received a response whose write completed, and
  the file at the target path is the whole body of that response. If the write of an
  attempt raises after \<open>k\<close> bytes, the attempts before it having ended in an exception
  handler, and no later attempt opens the file again, then \<open>download_pdf\<close> returns
  \<open>False\<close> and the target path holds the first \<open>k\<close> bytes of the body.
\<close>

theorem download_pdf_writes_in_place:
  "(\<forall>q. q \<noteq> output_path \<longrightarrow>
       files (snd (download_pdf world url output_path s)) q = files s q)
   \<and>
   (fst (download_pdf world url output_path s) \<longrightarrow>
      (\<exists>attempt resp. attempt < MAX_RETRIES \<and>
          world attempt = GetReturns resp WriteCompletes \<and>
          files (snd (download_pdf world url output_path s)) output_path =
            Some (content resp)))
   \<and>
   (attempt < MAX_RETRIES \<and> (\<forall>b < attempt. falls_through url (world b)) \<and>
    write_breaks_off url (world attempt) resp k \<and>
    (\<forall>b. attempt < b \<and> b < MAX_RETRIES \<longrightarrow> leaves_file url (world b)) \<longrightarrow>
      fst (download_pdf world url output_path s) = False \<and>
      files (snd (download_pdf world url output_path s)) output_path =
        Some (take k (content resp)))"
proof (intro conjI allI impI)
  fix q
  assume "q \<noteq> output_path"
  obtain b s' where run: "download_pdf world url output_path s = (b, s')"
    by (cases "download_pdf world url output_path s")
  then have "download_attempts world url output_path [0..<MAX_RETRIES] s = (b, s')"
    by (simp add: download_pdf_def)
  from download_attempts_frame[OF this \<open>q \<noteq> output_path\<close>] run
  show "files (snd (download_pdf world url output_path s)) q = files s q"
    by simp
next
  assume ok: "fst (download_pdf world url output_path s)"
  obtain s' where run: "download_pdf world url output_path s = (True, s')"
    using ok by (cases "download_pdf world url output_path s") simp
  then have "download_attempts world url output_path [0..<MAX_RETRIES] s = (True, s')"
    by (simp add: download_pdf_def)
  from download_attempts_True[OF this, simplified] run
  show "\<exists>attempt resp. attempt < MAX_RETRIES \<and>
          world attempt = GetReturns resp WriteCompletes \<and>
          files (snd (download_pdf world url output_path s)) output_path =
            Some (content resp)"
    by auto
next
  assume h: "attempt < MAX_RETRIES \<and> (\<forall>b < attempt. falls_through url (world b)) \<and>
    write_breaks_off url (world attempt) resp k \<and>
    (\<forall>b. attempt < b \<and> b < MAX_RETRIES \<longrightarrow> leaves_file url (world b))"
  then have "fst (download_pdf world url output_path s) = False \<and>
      files (snd (download_pdf world url output_path s)) output_path =
        Some (take k (content resp))"
    using download_pdf_broken_write[of attempt url world resp k output_path s] by blast
  then show "fst (download_pdf world url output_path s) = False"
    and "files (snd (download_pdf world url output_path s)) output_path =
        Some (take k (content resp))"
    by simp_all
qed


text \<open>
  Two runs. In the first, the third attempt succeeds: another path is untouched and
  the file holds the whole body. In the second, the first write breaks off after four
  bytes and the other attempts time out: the file holds those four bytes.
\<close>

theorem download_pdf_writes_in_place_witness:
  "(''papers/10.1_b.pdf'' \<noteq> ''papers/10.1_a.pdf'' \<and>
    files (snd (download_pdf world_third_time ''https://example.org/a.pdf''
                  ''papers/10.1_a.pdf'' empty_disk)) ''papers/10.1_b.pdf'' =
      files empty_disk ''papers/10.1_b.pdf'')
   \<and>
   (fst (download_pdf world_third_time ''https://example.org/a.pdf'' ''papers/10.1_a.pdf''
           empty_disk) \<and>
    (\<exists>attempt resp. attempt < MAX_RETRIES \<and>
        world_third_time attempt = GetReturns resp WriteCompletes \<and>
        files (snd (download_pdf world_third_time ''https://example.org/a.pdf''
                      ''papers/10.1_a.pdf'' empty_disk)) ''papers/10.1_a.pdf'' =
          Some (content resp)))
   \<and>
   ((0::nat) < MAX_RETRIES \<and>
    write_breaks_off ''https://example.org/a.pdf'' (world_broken_write 0) pdf_response 4 \<and>
    leaves_file ''https://example.org/a.pdf'' (world_broken_write 1) \<and>
    leaves_file ''https://example.org/a.pdf'' (world_broken_write 4) \<and>
    fst (download_pdf world_broken_write ''https://example.org/a.pdf'' ''papers/10.1_a.pdf''
           empty_disk) = False \<and>
    files (snd (download_pdf world_broken_write ''https://example.org/a.pdf''
                  ''papers/10.1_a.pdf'' empty_disk)) ''papers/10.1_a.pdf'' =
      Some (take 4 (content pdf_response)))"
proof -
  have other: "''papers/10.1_b.pdf'' \<noteq> ''papers/10.1_a.pdf''"
    by simp
  note third = download_pdf_writes_in_place[where world = world_third_time
      and url = "''https://example.org/a.pdf''" and output_path = "''papers/10.1_a.pdf''"
      and s = empty_disk]
  note frame = third[THEN conjunct1, THEN spec, THEN mp, OF other]
  have ok: "fst (download_pdf world_third_time ''https://example.org/a.pdf''
                   ''papers/10.1_a.pdf'' empty_disk)"
    by (simp add: download_pdf_unfold world_third_time_def attempt_body_def
          backoff_unfold log_event_def empty_disk_def pdf_response_def
          raises_for_status_def write_file_def content_type_checks)
  note whole = third[THEN conjunct2, THEN conjunct1, THEN mp, OF ok]
  have m: "(0::nat) < MAX_RETRIES"
    by (simp add: MAX_RETRIES_def)
  have w: "write_breaks_off ''https://example.org/a.pdf'' (world_broken_write 0) pdf_response 4"
    by (simp add: write_breaks_off_def world_broken_write_def rejected_as_html_def
          pdf_response_def raises_for_status_def content_type_checks)
  have l: "leaves_file ''https://example.org/a.pdf'' (world_broken_write b)" if "0 < b" for b
    using that by (simp add: leaves_file_def world_broken_write_def)
  have hyp: "(0::nat) < MAX_RETRIES \<and>
      (\<forall>b < 0. falls_through ''https://example.org/a.pdf'' (world_broken_write b)) \<and>
      write_breaks_off ''https://example.org/a.pdf'' (world_broken_write 0) pdf_response 4 \<and>
      (\<forall>b. 0 < b \<and> b < MAX_RETRIES \<longrightarrow>
           leaves_file ''https://example.org/a.pdf'' (world_broken_write b))"
    using m w l by simp
  note broken = download_pdf_writes_in_place[where world = world_broken_write
      and url = "''https://example.org/a.pdf''" and output_path = "''papers/10.1_a.pdf''"
      and s = empty_disk and attempt = 0 and resp = pdf_response and k = 4,
      THEN conjunct2, THEN conjunct2, THEN mp, OF hyp]
  show ?thesis
    by (insert other frame ok whole m w l[of 1] l[of 4] broken,
        intro conjI; (elim conjE)?; (simp; fail | assumption))
qed

text \<open>
  Claim C1 as stated fails: when the write of the first attempt breaks off after four
  bytes and the remaining attempts time out, \<open>download_pdf\<close> returns \<open>False\<close> and the
  target path holds the four bytes written, not the body.
\<close>

theorem download_pdf_partial_file_counterexample:
  "fst (download_pdf world_broken_write ''https://example.org/a.pdf'' ''papers/10.1_a.pdf''
          empty_disk) = False \<and>
   files (snd (download_pdf world_broken_write ''https://example.org/a.pdf''
                 ''papers/10.1_a.pdf'' empty_disk)) ''papers/10.1_a.pdf'' = Some ''%PDF'' \<and>
   content pdf_response = ''%PDF-1.4 body''"
  by (simp add: download_pdf_unfold world_broken_write_def attempt_body_def
        backoff_unfold log_event_def empty_disk_def pdf_response_def
        raises_for_status_def write_file_def content_type_checks)

lemma complete_download_False:
  "download_pdf world url output_path s = (False, s') \<Longrightarrow>
   complete_download world p paper_id url output_path (st, s) =
     (st\<lparr>failed := failed st + 1,
         failed_papers := failed_papers st @ [(paper_id, title p, url)]\<rparr>, s')"
  by (simp add: complete_download_def)

text \<open>
  Claim C5. If the first attempt is answered with status 403, 404 or 451, then
  \<open>download_pdf\<close> returns \<open>False\<close> after exactly one request: the trace grows by that one
  request and by no sleep, and no file changes. The record then ends as failed:
  \<open>failed\<close> goes up by one and its entry is appended to \<open>failed_papers\<close>.
\<close>

theorem permanent_failure_single_attempt:
  assumes "world 0 = GetReturns resp w" and "status_code resp \<in> {403, 404, 451}"
  shows "download_pdf world url output_path s = (False, s\<lparr>trace := trace s @ [Get url]\<rparr>) \<and>
         complete_download world p paper_id url output_path (st, s) =
           (st\<lparr>failed := failed st + 1,
               failed_papers := failed_papers st @ [(paper_id, title p, url)]\<rparr>,
            s\<lparr>trace := trace s @ [Get url]\<rparr>)"
proof -
  have "attempt_body url output_path 0 (world 0) s = (Some False, log_event (Get url) s)"
    using assms by (simp add: attempt_body_permanent)
  then have run: "download_pdf world url output_path s = (False, s\<lparr>trace := trace s @ [Get url]\<rparr>)"
    by (simp add: download_pdf_unfold log_event_def)
  from run complete_download_False[OF run] show ?thesis
    by blast
qed

text \<open>A fetch that is answered with 404.\<close>

theorem permanent_failure_single_attempt_witness:
  "world_status 404 0 = GetReturns (status_response 404) WriteCompletes \<and>
   status_code (status_response 404) \<in> {403, 404, 451} \<and>
   download_pdf (world_status 404) ''https://example.org/paper'' ''papers/10.1_a.pdf'' empty_disk
     = (False, empty_disk\<lparr>trace := trace empty_disk @ [Get ''https://example.org/paper'']\<rparr>) \<and>
   complete_download (world_status 404) paper_foo_bar ''10.1_a'' ''https://example.org/paper''
       ''papers/10.1_a.pdf'' (initial_stats [paper_foo_bar], empty_disk)
     = ((initial_stats [paper_foo_bar])
          \<lparr>failed := failed (initial_stats [paper_foo_bar]) + 1,
           failed_papers := failed_papers (initial_stats [paper_foo_bar]) @
             [(''10.1_a'', title paper_foo_bar, ''https://example.org/paper'')]\<rparr>,
        empty_disk\<lparr>trace := trace empty_disk @ [Get ''https://example.org/paper'']\<rparr>)"
proof -
  have h1: "world_status 404 0 = GetReturns (status_response 404) WriteCompletes"
    by (simp add: world_status_def)
  have h2: "status_code (status_response 404) \<in> {403, 404, 451}"
    by (simp add: status_response_def)
  from permanent_failure_single_attempt[of "world_status 404" "status_response 404"
         WriteCompletes "''https://example.org/paper''" "''papers/10.1_a.pdf''" empty_disk
         paper_foo_bar "''10.1_a''" "initial_stats [paper_foo_bar]"] h1 h2
  show ?thesis
    by blast
qed

text \<open>
  Claim C6. If each of the five attempts fails transiently, then \<open>download_pdf\<close> makes
  exactly five requests, one after the other, sleeps \<open>2 ^ attempt\<close> seconds between
  consecutive requests (1, 2, 4 and 8) and not after the last, and returns \<open>False\<close>;
  the record ends as failed.
\<close>

theorem transient_failures_exhaust_budget:
  assumes "\<forall>attempt < MAX_RETRIES. transient (world attempt)"
  shows "download_pdf world url output_path s =
           (False, s\<lparr>trace := trace s @ [Get url, Sleep 1, Get url, Sleep 2, Get url, Sleep 4,
                                         Get url, Sleep 8, Get url]\<rparr>) \<and>
         complete_download world p paper_id url output_path (st, s) =
           (st\<lparr>failed := failed st + 1,
               failed_papers := failed_papers st @ [(paper_id, title p, url)]\<rparr>,
            s\<lparr>trace := trace s @ [Get url, Sleep 1, Get url, Sleep 2, Get url, Sleep 4,
                                  Get url, Sleep 8, Get url]\<rparr>)"
proof -
  have t: "transient (world 0)" "transient (world (Suc 0))" "transient (world 2)"
          "transient (world 3)" "transient (world 4)"
    using assms by (simp_all add: MAX_RETRIES_def)
  have run: "download_pdf world url output_path s =
           (False, s\<lparr>trace := trace s @ [Get url, Sleep 1, Get url, Sleep 2, Get url, Sleep 4,
                                         Get url, Sleep 8, Get url]\<rparr>)"
    by (simp add: download_pdf_unfold attempt_body_transient t backoff_unfold log_event_def)
  from run complete_download_False[OF run] show ?thesis
    by blast
qed

text \<open>A fetch that is answered with 500 every time.\<close>

theorem transient_failures_exhaust_budget_witness:
  "transient (world_status 500 0) \<and> transient (world_status 500 1) \<and>
   transient (world_status 500 2) \<and> transient (world_status 500 3) \<and>
   transient (world_status 500 4) \<and>
   download_pdf (world_status 500) ''https://example.org/paper'' ''papers/10.1_a.pdf'' empty_disk
     = (False, empty_disk\<lparr>trace := trace empty_disk @
          [Get ''https://example.org/paper'', Sleep 1, Get ''https://example.org/paper'', Sleep 2,
           Get ''https://example.org/paper'', Sleep 4, Get ''https://example.org/paper'', Sleep 8,
           Get ''https://example.org/paper'']\<rparr>)"
proof -
  have t: "transient (world_status 500 attempt)" for attempt
    by (simp add: transient_def world_status_def status_response_def raises_for_status_def)
  then have h: "\<forall>attempt < MAX_RETRIES. transient (world_status 500 attempt)"
    by simp
  have run: "download_pdf (world_status 500) ''https://example.org/paper'' ''papers/10.1_a.pdf''
       empty_disk
     = (False, empty_disk\<lparr>trace := trace empty_disk @
          [Get ''https://example.org/paper'', Sleep 1, Get ''https://example.org/paper'', Sleep 2,
           Get ''https://example.org/paper'', Sleep 4, Get ''https://example.org/paper'', Sleep 8,
           Get ''https://example.org/paper'']\<rparr>)"
    using transient_failures_exhaust_budget[OF h, of "''https://example.org/paper''"
         "''papers/10.1_a.pdf''" empty_disk] by (rule conjunct1)
  show ?thesis
    by (insert t[of 0] t[of 1] t[of 2] t[of 3] t[of 4] run, intro conjI; assumption)
qed

subsection \<open>The batch\<close>

lemma begin_download_cases:
  "begin_download output_dir s p st =
     (if no_url (i, p) then (Finished, st\<lparr>skipped_no_url := skipped_no_url st + 1\<rparr>)
      else if already_there output_dir s (i, p)
      then (Finished, st\<lparr>skipped_exists := skipped_exists st + 1,
                        downloaded_files := downloaded_files st @ [target_path output_dir p]\<rparr>)
      else (Waiting (get_paper_id p) (url_of p) (target_path output_dir p), st))"
  by (auto simp: begin_download_def no_url_def already_there_def url_of_def target_path_def file_exists_def
        Let_def split: option.splits list.splits)

lemma start_one_cases:
  "start_one output_dir s (st, ws) ip =
     (if no_url ip then (st\<lparr>skipped_no_url := skipped_no_url st + 1\<rparr>, ws)
      else if already_there output_dir s ip
      then (st\<lparr>skipped_exists := skipped_exists st + 1,
              downloaded_files := downloaded_files st @ [target_path output_dir (snd ip)]\<rparr>, ws)
      else (st, ws @ [waiting_of output_dir ip]))"
  by (cases ip) (simp add: start_one_def begin_download_cases[where i="fst ip"] waiting_of_def)

lemma to_fetch_iff: "to_fetch output_dir s ip = (\<not> no_url ip \<and> \<not> already_there output_dir s ip)"
  by (auto simp: to_fetch_def no_url_def already_there_def)

lemma foldl_start_one:
  "foldl (start_one output_dir s) (st, ws) xs =
     (st\<lparr>skipped_no_url := skipped_no_url st + length (filter no_url xs),
         skipped_exists := skipped_exists st + length (filter (already_there output_dir s) xs),
         downloaded_files := downloaded_files st @
            map (\<lambda>ip. target_path output_dir (snd ip)) (filter (already_there output_dir s) xs)\<rparr>,
      ws @ map (waiting_of output_dir) (filter (to_fetch output_dir s) xs))"
proof (induction xs arbitrary: st ws)
  case Nil
  show ?case by simp
next
  case (Cons ip xs)
  show ?case
    by (simp add: start_one_cases Cons.IH to_fetch_iff)
       (auto simp: no_url_def already_there_def)
qed

lemma write_file_fst: "fst (write_file output_path body w s) = fst (write_file output_path body w s')"
  by (cases w) (simp_all add: write_file_def)

lemma attempt_body_fst:
  "fst (attempt_body url output_path attempt io s) = fst (attempt_body url output_path attempt io s')"
proof (cases io)
  case GetRaises
  then show ?thesis by (simp add: attempt_body_def)
next
  case (GetReturns resp w)
  have "fst (write_file output_path (content resp) w (log_event (Get url) s)) =
        fst (write_file output_path (content resp) w (log_event (Get url) s'))"
    by (rule write_file_fst)
  with GetReturns show ?thesis
    by (auto simp: attempt_body_def Let_def split: prod.splits bool.splits)
qed

lemma download_attempts_fst:
  "fst (download_attempts world url output_path as s) =
   fst (download_attempts world url output_path as s')"
proof (induction as arbitrary: s s')
  case Nil
  show ?case by simp
next
  case (Cons a as)
  obtain r s1 where b1: "attempt_body url output_path a (world a) s = (r, s1)"
    by (cases "attempt_body url output_path a (world a) s")
  obtain r' s1' where b2: "attempt_body url output_path a (world a) s' = (r', s1')"
    by (cases "attempt_body url output_path a (world a) s'")
  from attempt_body_fst[of url output_path a "world a" s s'] b1 b2 have "r' = r"
    by simp
  with b1 b2 Cons.IH[of s1 s1'] show ?case
    by (cases r) simp_all
qed

lemma download_pdf_fst:
  "fst (download_pdf world url output_path s) = fst (download_pdf world url output_path s')"
  by (simp add: download_pdf_def download_attempts_fst[of _ _ _ _ s s'])

lemma finish_one_stats:
  "fst (finish_one world (st, s) w) =
     (if fetch_ok world s0 w
      then st\<lparr>downloaded := downloaded st + 1,
              downloaded_files := downloaded_files st @ [waiting_path w]\<rparr>
      else st\<lparr>failed := failed st + 1,
              failed_papers := failed_papers st @ [waiting_entry w]\<rparr>)"
proof -
  obtain i p paper_id url output_path where w: "w = (i, p, paper_id, url, output_path)"
    by (cases w)
  obtain b s' where d: "download_pdf (world i) url output_path s = (b, s')"
    by (cases "download_pdf (world i) url output_path s")
  from download_pdf_fst[of "world i" url output_path s s0] d
  have "fst (download_pdf (world i) url output_path s0) = b"
    by simp
  with w d show ?thesis
    by (cases b)
       (simp_all add: finish_one_def complete_download_def fetch_ok_def waiting_path_def
          waiting_entry_def)
qed

lemma foldl_finish_one:
  "fst (foldl (finish_one world) (st, s) ts) =
     st\<lparr>downloaded := downloaded st + length (filter (fetch_ok world s0) ts),
        failed := failed st + length (filter (\<lambda>w. \<not> fetch_ok world s0 w) ts),
        downloaded_files := downloaded_files st @ map waiting_path (filter (fetch_ok world s0) ts),
        failed_papers := failed_papers st @
           map waiting_entry (filter (\<lambda>w. \<not> fetch_ok world s0 w) ts)\<rparr>"
proof (induction ts arbitrary: st s)
  case Nil
  show ?case by simp
next
  case (Cons w ts)
  obtain st1 s1 where f: "finish_one world (st, s) w = (st1, s1)"
    by (cases "finish_one world (st, s) w")
  from finish_one_stats[of world st s w s0] f
  have st1: "st1 = (if fetch_ok world s0 w
      then st\<lparr>downloaded := downloaded st + 1,
              downloaded_files := downloaded_files st @ [waiting_path w]\<rparr>
      else st\<lparr>failed := failed st + 1,
              failed_papers := failed_papers st @ [waiting_entry w]\<rparr>)"
    by simp
  show ?case
    by (simp add: f Cons.IH) (simp add: st1)
qed


lemma completion_order_mset:
  assumes "mset order = mset [0..<length ws]"
  shows "mset (map (\<lambda>k. ws ! k) (filter (\<lambda>k. k < length ws) order)) = mset ws"
proof -
  from assms have "set order = set [0..<length ws]"
    by (rule mset_eq_setD)
  then have "filter (\<lambda>k. k < length ws) order = order"
    by (auto simp: filter_id_conv)
  moreover have "mset (map (\<lambda>k. ws ! k) order) = mset (map (\<lambda>k. ws ! k) [0..<length ws])"
    using assms by (simp only: mset_map)
  moreover have "map (\<lambda>k. ws ! k) [0..<length ws] = ws"
    by (rule map_nth)
  ultimately show ?thesis by simp
qed

lemma filter_three_way:
  "length (filter no_url xs) + length (filter (already_there output_dir s) xs) +
   length (filter (to_fetch output_dir s) xs) = length xs"
  by (induction xs) (auto simp: to_fetch_iff no_url_def already_there_def)

lemma start_all_eq:
  "start_all output_dir s papers =
     ((initial_stats papers)
        \<lparr>skipped_no_url := length (filter no_url (enumerate 0 papers)),
         skipped_exists := length (filter (already_there output_dir s) (enumerate 0 papers)),
         downloaded_files :=
           map (\<lambda>ip. target_path output_dir (snd ip))
             (filter (already_there output_dir s) (enumerate 0 papers))\<rparr>,
      map (waiting_of output_dir) (filter (to_fetch output_dir s) (enumerate 0 papers)))"
  by (simp add: start_all_def foldl_start_one initial_stats_def)

lemma completed_mset:
  "completes_each_once output_dir s papers order \<Longrightarrow>
   mset (completed output_dir s papers order) =
   mset (map (waiting_of output_dir) (filter (to_fetch output_dir s) (enumerate 0 papers)))"
  unfolding completed_def completes_each_once_def
  using completion_order_mset[of order "snd (start_all output_dir s papers)"]
  by (simp only: start_all_eq snd_conv)

lemma download_all_stats:
  "fst (download_all world order papers output_dir s) =
     (initial_stats papers)
        \<lparr>skipped_no_url := length (filter no_url (enumerate 0 papers)),
         skipped_exists := length (filter (already_there output_dir s) (enumerate 0 papers)),
         downloaded :=
           length (filter (fetch_ok world s) (completed output_dir s papers order)),
         failed :=
           length (filter (\<lambda>w. \<not> fetch_ok world s w) (completed output_dir s papers order)),
         downloaded_files :=
           map (\<lambda>ip. target_path output_dir (snd ip))
             (filter (already_there output_dir s) (enumerate 0 papers)) @
           map waiting_path (filter (fetch_ok world s) (completed output_dir s papers order)),
         failed_papers :=
           map waiting_entry
             (filter (\<lambda>w. \<not> fetch_ok world s w) (completed output_dir s papers order))\<rparr>"
proof -
  obtain st ws where sa: "start_all output_dir s papers = (st, ws)"
    by (cases "start_all output_dir s papers")
  have c: "completed output_dir s papers order =
           map (\<lambda>k. ws ! k) (filter (\<lambda>k. k < length ws) order)"
    by (simp add: completed_def sa)
  have "fst (download_all world order papers output_dir s) =
        fst (foldl (finish_one world) (st, s) (completed output_dir s papers order))"
    by (simp add: download_all_def sa c)
  also note foldl_finish_one[of world st s "completed output_dir s papers order" s]
  finally have run: "fst (download_all world order papers output_dir s) =
      st\<lparr>downloaded := downloaded st +
             length (filter (fetch_ok world s) (completed output_dir s papers order)),
         failed := failed st +
             length (filter (\<lambda>w. \<not> fetch_ok world s w) (completed output_dir s papers order)),
         downloaded_files := downloaded_files st @
             map waiting_path (filter (fetch_ok world s) (completed output_dir s papers order)),
         failed_papers := failed_papers st @
             map waiting_entry
               (filter (\<lambda>w. \<not> fetch_ok world s w) (completed output_dir s papers order))\<rparr>" .
  have st: "st = (initial_stats papers)
        \<lparr>skipped_no_url := length (filter no_url (enumerate 0 papers)),
         skipped_exists := length (filter (already_there output_dir s) (enumerate 0 papers)),
         downloaded_files :=
           map (\<lambda>ip. target_path output_dir (snd ip))
             (filter (already_there output_dir s) (enumerate 0 papers))\<rparr>"
    using sa by (simp add: start_all_eq)
  show ?thesis
    unfolding run by (simp add: st initial_stats_def)
qed

lemma outcome_of_cases:
  "outcome_of world output_dir s ip =
     (if no_url ip then SkippedNoUrl
      else if already_there output_dir s ip then SkippedExisting
      else if fetch_ok world s (waiting_of output_dir ip) then Downloaded else Failed)"
  by (cases ip)
     (auto simp: outcome_of_def no_url_def already_there_def fetch_ok_def waiting_of_def
        url_of_def split: option.splits list.splits)

lemma waiting_of_path: "waiting_path (waiting_of output_dir ip) = target_path output_dir (snd ip)"
  by (cases ip) (simp add: waiting_path_def waiting_of_def)

lemma waiting_of_entry: "waiting_entry (waiting_of output_dir ip) = failed_entry ip"
  by (cases ip) (simp add: waiting_entry_def waiting_of_def failed_entry_def)

lemma mset_filter_disjoint:
  "(\<And>x. \<not> (P x \<and> Q x)) \<Longrightarrow>
   mset (map f (filter P xs)) + mset (map f (filter Q xs)) =
   mset (map f (filter (\<lambda>x. P x \<or> Q x) xs))"
  by (induction xs) auto

lemma completed_filter_mset:
  assumes "completes_each_once output_dir s papers order"
  shows "mset (map h (filter P (completed output_dir s papers order))) =
         mset (map (\<lambda>ip. h (waiting_of output_dir ip))
                (filter (\<lambda>ip. to_fetch output_dir s ip \<and> P (waiting_of output_dir ip))
                   (enumerate 0 papers)))"
proof -
  let ?ws = "map (waiting_of output_dir) (filter (to_fetch output_dir s) (enumerate 0 papers))"
  have "mset (map h (filter P (completed output_dir s papers order))) =
        image_mset h (filter_mset P (mset (completed output_dir s papers order)))"
    by simp
  also have "\<dots> = image_mset h (filter_mset P (mset ?ws))"
    by (simp only: completed_mset[OF assms])
  also have "\<dots> = mset (map h (filter P ?ws))"
    by simp
  also have "map h (filter P ?ws) =
             map (\<lambda>ip. h (waiting_of output_dir ip))
                (filter (\<lambda>ip. to_fetch output_dir s ip \<and> P (waiting_of output_dir ip))
                   (enumerate 0 papers))"
    by (simp add: filter_map o_def conj_commute)
  finally show ?thesis .
qed

lemma batch_start:
  "snd (start_all ''papers'' batch_disk batch_papers) =
     [(2, paper_fetched, ''arxiv_2301.00001'', ''https://arxiv.org/pdf/2301.00001'',
       ''papers/arxiv_2301.00001.pdf''),
      (3, paper_gone, ''s2_abc'', ''https://example.org/gone'', ''papers/s2_abc.pdf'')]"
  by code_simp

lemma batch_completes: "completes_each_once ''papers'' batch_disk batch_papers batch_order"
  by (simp add: completes_each_once_def batch_start batch_order_def)

text \<open>
  Claim C9. When every waiting fetch has completed, each record has been counted once:
  \<open>downloaded + skipped_no_url + skipped_exists + failed = total\<close>, and \<open>total\<close> is the
  length of the input list. This holds for every order of completion.
\<close>

theorem download_all_counters_partition:
  assumes "completes_each_once output_dir s papers order"
  shows "downloaded (fst (download_all world order papers output_dir s)) +
         skipped_no_url (fst (download_all world order papers output_dir s)) +
         skipped_exists (fst (download_all world order papers output_dir s)) +
         failed (fst (download_all world order papers output_dir s)) =
         total (fst (download_all world order papers output_dir s)) \<and>
         total (fst (download_all world order papers output_dir s)) = length papers"
proof -
  let ?ts = "completed output_dir s papers order"
  let ?xs = "enumerate 0 papers"
  have "length ?ts = length (map (waiting_of output_dir) (filter (to_fetch output_dir s) ?xs))"
    using completed_mset[OF assms] by (rule mset_eq_length)
  then have len: "length ?ts = length (filter (to_fetch output_dir s) ?xs)"
    by simp
  have split: "length (filter (fetch_ok world s) ?ts) +
               length (filter (\<lambda>w. \<not> fetch_ok world s w) ?ts) = length ?ts"
    by (rule sum_length_filter_compl)
  have three: "length (filter no_url ?xs) + length (filter (already_there output_dir s) ?xs) +
               length (filter (to_fetch output_dir s) ?xs) = length papers"
    using filter_three_way[of ?xs output_dir s] by simp
  from len split three show ?thesis
    by (simp add: download_all_stats initial_stats_def)
qed

text \<open>The batch of four records: one of each outcome.\<close>

theorem download_all_counters_partition_witness:
  "completes_each_once ''papers'' batch_disk batch_papers batch_order \<and>
   (downloaded (fst (download_all batch_world batch_order batch_papers ''papers'' batch_disk)) +
    skipped_no_url (fst (download_all batch_world batch_order batch_papers ''papers'' batch_disk)) +
    skipped_exists (fst (download_all batch_world batch_order batch_papers ''papers'' batch_disk)) +
    failed (fst (download_all batch_world batch_order batch_papers ''papers'' batch_disk)) =
    total (fst (download_all batch_world batch_order batch_papers ''papers'' batch_disk)) \<and>
    total (fst (download_all batch_world batch_order batch_papers ''papers'' batch_disk)) =
    length batch_papers)"
  using batch_completes download_all_counters_partition[OF batch_completes, of batch_world]
  by (rule conjI)

text \<open>
  Claim C10. When every waiting fetch has completed, \<open>downloaded_files\<close> holds, as a
  multiset, the target paths of exactly the records whose outcome is \<open>SkippedExisting\<close> or
  \<open>Downloaded\<close>, and \<open>failed_papers\<close> holds exactly one entry (id, title, url) for each
  record whose outcome is \<open>Failed\<close>; the order of the entries follows the order of
  completion.
\<close>

theorem download_all_lists_match_outcomes:
  assumes "completes_each_once output_dir s papers order"
  shows "mset (downloaded_files (fst (download_all world order papers output_dir s))) =
         mset (map (\<lambda>ip. target_path output_dir (snd ip))
                 (filter (\<lambda>ip. outcome_of world output_dir s ip = SkippedExisting \<or>
                               outcome_of world output_dir s ip = Downloaded)
                    (enumerate 0 papers))) \<and>
         mset (failed_papers (fst (download_all world order papers output_dir s))) =
         mset (map failed_entry
                 (filter (\<lambda>ip. outcome_of world output_dir s ip = Failed) (enumerate 0 papers)))"
proof
  let ?xs = "enumerate 0 papers"
  let ?E = "\<lambda>ip. already_there output_dir s ip"
  let ?D = "\<lambda>ip. to_fetch output_dir s ip \<and> fetch_ok world s (waiting_of output_dir ip)"
  have "mset (downloaded_files (fst (download_all world order papers output_dir s))) =
        mset (map (\<lambda>ip. target_path output_dir (snd ip)) (filter ?E ?xs)) +
        mset (map waiting_path
               (filter (fetch_ok world s) (completed output_dir s papers order)))"
    by (simp add: download_all_stats)
  also have "mset (map waiting_path
               (filter (fetch_ok world s) (completed output_dir s papers order))) =
             mset (map (\<lambda>ip. target_path output_dir (snd ip)) (filter ?D ?xs))"
    by (simp only: completed_filter_mset[OF assms] waiting_of_path)
  also have "mset (map (\<lambda>ip. target_path output_dir (snd ip)) (filter ?E ?xs)) +
             mset (map (\<lambda>ip. target_path output_dir (snd ip)) (filter ?D ?xs)) =
             mset (map (\<lambda>ip. target_path output_dir (snd ip))
                    (filter (\<lambda>ip. ?E ip \<or> ?D ip) ?xs))"
    by (rule mset_filter_disjoint) (simp add: to_fetch_iff)
  also have "(\<lambda>ip. ?E ip \<or> ?D ip) =
             (\<lambda>ip. outcome_of world output_dir s ip = SkippedExisting \<or>
                   outcome_of world output_dir s ip = Downloaded)"
    by (auto simp: outcome_of_cases to_fetch_iff already_there_def no_url_def)
  finally show "mset (downloaded_files (fst (download_all world order papers output_dir s))) =
         mset (map (\<lambda>ip. target_path output_dir (snd ip))
                 (filter (\<lambda>ip. outcome_of world output_dir s ip = SkippedExisting \<or>
                               outcome_of world output_dir s ip = Downloaded)
                    (enumerate 0 papers)))" .
next
  let ?xs = "enumerate 0 papers"
  let ?F = "\<lambda>ip. to_fetch output_dir s ip \<and> \<not> fetch_ok world s (waiting_of output_dir ip)"
  have "mset (failed_papers (fst (download_all world order papers output_dir s))) =
        mset (map waiting_entry
               (filter (\<lambda>w. \<not> fetch_ok world s w) (completed output_dir s papers order)))"
    by (simp add: download_all_stats)
  also have "\<dots> = mset (map failed_entry (filter ?F ?xs))"
    by (simp only: completed_filter_mset[OF assms] waiting_of_entry)
  also have "?F = (\<lambda>ip. outcome_of world output_dir s ip = Failed)"
    by (auto simp: outcome_of_cases to_fetch_iff)
  finally show "mset (failed_papers (fst (download_all world order papers output_dir s))) =
         mset (map failed_entry
                 (filter (\<lambda>ip. outcome_of world output_dir s ip = Failed) (enumerate 0 papers)))" .
qed

text \<open>The same batch: the cached and the fetched file are listed, the 404 is an entry.\<close>

theorem download_all_lists_match_outcomes_witness:
  "completes_each_once ''papers'' batch_disk batch_papers batch_order \<and>
   (mset (downloaded_files
            (fst (download_all batch_world batch_order batch_papers ''papers'' batch_disk))) =
    mset (map (\<lambda>ip. target_path ''papers'' (snd ip))
            (filter (\<lambda>ip. outcome_of batch_world ''papers'' batch_disk ip = SkippedExisting \<or>
                          outcome_of batch_world ''papers'' batch_disk ip = Downloaded)
               (enumerate 0 batch_papers))) \<and>
    mset (failed_papers
            (fst (download_all batch_world batch_order batch_papers ''papers'' batch_disk))) =
    mset (map failed_entry
            (filter (\<lambda>ip. outcome_of batch_world ''papers'' batch_disk ip = Failed)
               (enumerate 0 batch_papers))))"
  using batch_completes download_all_lists_match_outcomes[OF batch_completes, of batch_world]
  by (rule conjI)



section \<open>Properties of the search orchestrator\<close>

lemma success_count_zero:
  "(success_count results = 0) = (\<forall>r \<in> set results. fst (snd r) \<noteq> 0)"
  by (auto simp: success_count_def filter_empty_conv)

lemma run_search_code:
  "(fst (snd (run_search name out)) \<noteq> 0) = process_failed out"
  by (cases out) (simp_all add: run_search_def process_failed_def)

text \<open>
  Claim C8. Whatever the order in which the three searches complete, the exit code is
  nonzero exactly when every search has failed, that is when each process exited with
  a nonzero code, timed out or could not be run (the exit code is 1 then, and 0 as soon
  as one search succeeds); and a search whose 300 seconds run out is recorded, by a
  value that \<open>run_search\<close> returns, with exit code \<open>-1\<close> and the text
  \<open>Timeout after 300 seconds\<close>.
\<close>

theorem exit_code_nonzero_iff_all_failed:
  assumes "mset completion = mset search_names"
  shows "(run_searches_main world completion \<noteq> 0) =
           (\<forall>name \<in> set search_names. process_failed (world name)) \<and>
         (run_searches_main world completion = 0 \<or> run_searches_main world completion = 1) \<and>
         (world name = TimeoutExpired \<longrightarrow>
            run_search name (world name) = (name, - 1, ''Timeout after 300 seconds'') \<and>
            process_failed (world name))"
proof -
  from assms have set_eq: "set completion = set search_names"
    by (rule mset_eq_setD)
  have "(run_searches_main world completion \<noteq> 0) =
        (\<forall>name \<in> set completion. fst (snd (run_search name (world name))) \<noteq> 0)"
    by (simp add: run_searches_main_def Let_def success_count_zero)
  also have "\<dots> = (\<forall>name \<in> set completion. process_failed (world name))"
    by (simp only: run_search_code)
  finally have iff: "(run_searches_main world completion \<noteq> 0) =
        (\<forall>name \<in> set search_names. process_failed (world name))"
    by (simp only: set_eq)
  have range: "run_searches_main world completion = 0 \<or> run_searches_main world completion = 1"
    by (simp add: run_searches_main_def Let_def)
  have timeout: "world name = TimeoutExpired \<longrightarrow>
            run_search name (world name) = (name, - 1, ''Timeout after 300 seconds'') \<and>
            process_failed (world name)"
    by (simp add: run_search_def process_failed_def)
  from iff range timeout show ?thesis
    by (intro conjI)
qed

text \<open>
  One search times out, one succeeds, one exits with 1: the exit code is 0. All three
  time out: the exit code is 1.
\<close>

theorem exit_code_nonzero_iff_all_failed_witness:
  "mset [''search_arxiv'', ''search_google_scholar'', ''search_semantic_scholar''] =
     mset search_names \<and>
   run_searches_main world_one_timeout
     [''search_arxiv'', ''search_google_scholar'', ''search_semantic_scholar''] = 0 \<and>
   \<not> process_failed (world_one_timeout ''search_semantic_scholar'') \<and>
   process_failed (world_one_timeout ''search_google_scholar'') \<and>
   world_one_timeout ''search_arxiv'' = TimeoutExpired \<and>
   run_search ''search_arxiv'' (world_one_timeout ''search_arxiv'') =
     (''search_arxiv'', - 1, ''Timeout after 300 seconds'') \<and>
   process_failed (world_one_timeout ''search_arxiv'') \<and>
   run_searches_main world_all_timeout
     [''search_arxiv'', ''search_google_scholar'', ''search_semantic_scholar''] = 1"
proof -
  let ?c = "[''search_arxiv'', ''search_google_scholar'', ''search_semantic_scholar'']"
  have h: "mset ?c = mset search_names"
    by (simp add: search_names_def)
  have ok: "\<not> process_failed (world_one_timeout ''search_semantic_scholar'')"
    by (simp add: process_failed_def world_one_timeout_def)
  have g: "process_failed (world_one_timeout ''search_google_scholar'')"
    by (simp add: process_failed_def world_one_timeout_def)
  have t: "world_one_timeout ''search_arxiv'' = TimeoutExpired"
    by (simp add: world_one_timeout_def)
  have all: "\<forall>name \<in> set search_names. process_failed (world_all_timeout name)"
    by (simp add: process_failed_def world_all_timeout_def)
  note a = exit_code_nonzero_iff_all_failed[OF h, of world_one_timeout "''search_arxiv''"]
  note b = exit_code_nonzero_iff_all_failed[OF h, of world_all_timeout "''search_arxiv''"]
  from a ok have "\<not> run_searches_main world_one_timeout ?c \<noteq> 0"
    by (auto simp: search_names_def)
  then have z: "run_searches_main world_one_timeout ?c = 0"
    by simp
  from a t have r: "run_search ''search_arxiv'' (world_one_timeout ''search_arxiv'') =
     (''search_arxiv'', - 1, ''Timeout after 300 seconds'')"
    and f: "process_failed (world_one_timeout ''search_arxiv'')"
    by simp_all
  from b all have "run_searches_main world_all_timeout ?c \<noteq> 0"
    by simp
  with b have o: "run_searches_main world_all_timeout ?c = 1"
    by auto
  show ?thesis
    by (insert h z ok g t r f o, intro conjI; assumption)
qed


section \<open>Properties of the artifact identifier\<close>

text \<open>
  Claim C2 at a concrete pair. The two records have different DOIs, so they are not the
  same artifact, yet \<open>get_paper_id\<close> gives both the id \<open>10.1000_a_b\<close> and so the same
  target path: the slash of the first DOI is replaced by the underscore that the second
  DOI has in that place.
\<close>

theorem get_paper_id_collision:
  "get_paper_id paper_doi_slash = ''10.1000_a_b'' \<and>
   get_paper_id paper_doi_underscore = ''10.1000_a_b'' \<and>
   target_path ''papers'' paper_doi_slash = target_path ''papers'' paper_doi_underscore \<and>
   \<not> same_artifact paper_doi_slash paper_doi_underscore"
  by code_simp

end
